theory Spec2Isabelle
  imports Complex_Main "HOL-Library.Word" "HOL-Library.Monad_Syntax"
begin

section \<open>Python strings and bytes\<close>

text \<open>
  A Python \<open>str\<close> is a sequence of Unicode code points and \<open>len\<close> counts code points,
  so a string is a list of code-point numbers. A \<open>bytes\<close> object is a list of 8-bit
  words. \<open>str_lit\<close> turns an ASCII literal of this text into such a string.
\<close>

type_synonym pystr = "nat list"
type_synonym byte = "8 word"

definition str_lit :: "string \<Rightarrow> pystr" where
  "str_lit s = map of_char s"

text \<open>
  \<open>str.encode('utf-8')\<close>, one code point at a time. Python raises UnicodeEncodeError
  on a lone surrogate (U+D800 .. U+DFFF); \<open>None\<close> is that exception. Numbers from
  0x110000 on are not code points of any Python string and are refused as well.
\<close>

definition encode_cp :: "nat \<Rightarrow> byte list option" where
  "encode_cp c =
     (if c < 0x80 then Some [of_nat c]
      else if c < 0x800 then Some [of_nat (0xC0 + c div 64), of_nat (0x80 + c mod 64)]
      else if 0xD800 \<le> c \<and> c < 0xE000 then None
      else if c < 0x10000 then
        Some [of_nat (0xE0 + c div 4096), of_nat (0x80 + c div 64 mod 64),
              of_nat (0x80 + c mod 64)]
      else if c < 0x110000 then
        Some [of_nat (0xF0 + c div 262144), of_nat (0x80 + c div 4096 mod 64),
              of_nat (0x80 + c div 64 mod 64), of_nat (0x80 + c mod 64)]
      else None)"

fun utf8_encode :: "pystr \<Rightarrow> byte list option" where
  "utf8_encode [] = Some []"
| "utf8_encode (c # cs) =
     (case encode_cp c of
        None \<Rightarrow> None
      | Some bs \<Rightarrow> (case utf8_encode cs of None \<Rightarrow> None | Some r \<Rightarrow> Some (bs @ r)))"

text \<open>
  \<open>bytes.decode()\<close> (UTF-8, strict): \<open>None\<close> is UnicodeDecodeError. Overlong forms,
  encoded surrogates, values above U+10FFFF and truncated or stray continuation bytes
  are all refused, as CPython's decoder does.
\<close>

definition cont :: "byte \<Rightarrow> bool" where
  "cont b = (0x80 \<le> unat b \<and> unat b < 0xC0)"

fun utf8_decode :: "byte list \<Rightarrow> pystr option" where
  "utf8_decode [] = Some []"
| "utf8_decode (b # bs) =
     (let n = unat b in
      if n < 0x80 then map_option (Cons n) (utf8_decode bs)
      else if 0xC2 \<le> n \<and> n < 0xE0 then
        (case bs of
           b1 # r \<Rightarrow>
             if cont b1
             then map_option (Cons ((n - 0xC0) * 64 + (unat b1 - 0x80))) (utf8_decode r)
             else None
         | _ \<Rightarrow> None)
      else if 0xE0 \<le> n \<and> n < 0xF0 then
        (case bs of
           b1 # b2 # r \<Rightarrow>
             (let c = (n - 0xE0) * 4096 + (unat b1 - 0x80) * 64 + (unat b2 - 0x80) in
              if cont b1 \<and> cont b2 \<and> 0x800 \<le> c \<and> \<not> (0xD800 \<le> c \<and> c < 0xE000)
              then map_option (Cons c) (utf8_decode r)
              else None)
         | _ \<Rightarrow> None)
      else if 0xF0 \<le> n \<and> n < 0xF5 then
        (case bs of
           b1 # b2 # b3 # r \<Rightarrow>
             (let c = (n - 0xF0) * 262144 + (unat b1 - 0x80) * 4096
                      + (unat b2 - 0x80) * 64 + (unat b3 - 0x80) in
              if cont b1 \<and> cont b2 \<and> cont b3 \<and> 0x10000 \<le> c \<and> c < 0x110000
              then map_option (Cons c) (utf8_decode r)
              else None)
         | _ \<Rightarrow> None)
      else None)"

section \<open>PrinterConfig.COMMANDS\<close>

definition bold_on :: "byte list" where "bold_on = [0x1B, 0x45, 0x01]"
definition bold_off :: "byte list" where "bold_off = [0x1B, 0x45, 0x00]"
definition large_on :: "byte list" where "large_on = [0x1B, 0x21, 0x10]"
definition large_off :: "byte list" where "large_off = [0x1B, 0x21, 0x00]"
definition buzzer :: "byte list" where "buzzer = [0x1B, 0x42, 0x05, 0x07]"
definition cut :: "byte list" where "cut = [0x1D, 0x56, 0x00]"
definition line_feed :: "byte list" where "line_feed = [0x0A]"

section \<open>PrintFormatter\<close>

text \<open>
  A width or a repeat count is a Python int, which CPython converts to \<open>Py_ssize_t\<close>, a
  64-bit signed integer here; an int that does not fit raises OverflowError.
\<close>

definition fits_ssize :: "int \<Rightarrow> bool" where
  "fits_ssize n = (- (2 ^ 63) \<le> n \<and> n < 2 ^ 63)"

text \<open>
  \<open>str.center\<close>, \<open>str.ljust\<close> and \<open>str.rjust\<close> with the default fill character, the
  space U+0020; \<open>None\<close> is the OverflowError of a width that does not fit. The width
  may be negative. CPython's \<open>center\<close> puts \<open>marg / 2 + (marg & width & 1)\<close> fill
  characters on the left, where \<open>marg = width - len\<close>: the extra one goes left exactly
  when both are odd.
\<close>

definition py_center :: "pystr \<Rightarrow> int \<Rightarrow> pystr option" where
  "py_center text width =
     (if \<not> fits_ssize width then None
      else if width \<le> int (length text) then Some text
      else
        (let marg = nat (width - int (length text));
             left = marg div 2 + (if odd marg \<and> odd width then 1 else 0)
         in Some (replicate left 0x20 @ text @ replicate (marg - left) 0x20)))"

definition py_ljust :: "pystr \<Rightarrow> int \<Rightarrow> pystr option" where
  "py_ljust text width =
     (if \<not> fits_ssize width then None
      else if width \<le> int (length text) then Some text
      else Some (text @ replicate (nat (width - int (length text))) 0x20))"

definition py_rjust :: "pystr \<Rightarrow> int \<Rightarrow> pystr option" where
  "py_rjust text width =
     (if \<not> fits_ssize width then None
      else if width \<le> int (length text) then Some text
      else Some (replicate (nat (width - int (length text))) 0x20 @ text))"

text \<open>
  \<open>s * n\<close> on a string: empty for \<open>n < 1\<close>, and OverflowError (\<open>None\<close>) when \<open>n\<close> does
  not fit or the result would be longer than the largest \<open>Py_ssize_t\<close>.
\<close>

definition py_repeat :: "pystr \<Rightarrow> int \<Rightarrow> pystr option" where
  "py_repeat s n =
     (if \<not> fits_ssize n then None
      else if n < 1 then Some []
      else if (2 ^ 63 - 1) div n < int (length s) then None
      else Some (concat (replicate (nat n) s)))"

text \<open>
  \<open>bold\<close> and \<open>large\<close> decode the command bytes into the string (\<open>decode()\<close> is UTF-8)
  and put the text between them. \<open>None\<close> would be the decoder raising.
\<close>

definition bold :: "pystr \<Rightarrow> pystr option" where
  "bold text =
     (case utf8_decode bold_on of
        None \<Rightarrow> None
      | Some a \<Rightarrow>
          (case utf8_decode bold_off of None \<Rightarrow> None | Some b \<Rightarrow> Some (a @ text @ b)))"

definition large :: "pystr \<Rightarrow> pystr option" where
  "large text =
     (case utf8_decode large_on of
        None \<Rightarrow> None
      | Some a \<Rightarrow>
          (case utf8_decode large_off of None \<Rightarrow> None | Some b \<Rightarrow> Some (a @ text @ b)))"

definition center :: "pystr \<Rightarrow> int \<Rightarrow> pystr option" where
  "center text width = py_center text width"

definition left_align :: "pystr \<Rightarrow> int \<Rightarrow> pystr option" where
  "left_align text width = py_ljust text width"

definition right_align :: "pystr \<Rightarrow> int \<Rightarrow> pystr option" where
  "right_align text width = py_rjust text width"

definition holder_line :: "pystr \<Rightarrow> int \<Rightarrow> pystr option" where
  "holder_line char len = py_repeat char len"

section \<open>Values of the configuration documents\<close>

text \<open>
  What \<open>json.load\<close> can return, and so every value a configuration can hold at run
  time: \<open>None\<close>, a bool, an int, a str, a list or a dict (an association list, looked up
  from the front). JSON numbers with a fraction are left out.
  \<open>truthy\<close> is the test Python's \<open>not\<close> and \<open>if\<close> apply to a value.
\<close>

datatype json =
    JNull
  | JBool bool
  | JInt int
  | JStr pystr
  | JArr "json list"
  | JObj "(pystr \<times> json) list"

fun truthy :: "json \<Rightarrow> bool" where
  "truthy JNull = False"
| "truthy (JBool b) = b"
| "truthy (JInt i) = (i \<noteq> 0)"
| "truthy (JStr s) = (s \<noteq> [])"
| "truthy (JArr xs) = (xs \<noteq> [])"
| "truthy (JObj kvs) = (kvs \<noteq> [])"

text \<open>\<open>data.get(key, default)\<close>; \<open>None\<close> is the AttributeError of a value that is no dict.\<close>

definition dict_get :: "json \<Rightarrow> pystr \<Rightarrow> json \<Rightarrow> json option" where
  "dict_get data key dflt =
     (case data of
        JObj kvs \<Rightarrow> Some (case map_of kvs key of None \<Rightarrow> dflt | Some v \<Rightarrow> v)
      | _ \<Rightarrow> None)"

text \<open>
  A configuration file: absent (\<open>open\<close> raises FileNotFoundError), unreadable (\<open>open\<close>
  raises anything else, or \<open>json.load\<close> rejects the text), or holding a JSON value.
\<close>

datatype document = Absent | Unreadable | Holds json

section \<open>Console output and device traffic\<close>

datatype message =
    Error_saving_printer_config
  | Error_saving_printer_type
  | Error_loading_printer_config
  | Error_loading_printer_type
  | Pyusb_not_installed
  | Error_detecting_usb_devices
  | No_printer_configured_select_first
  | No_printer_configured
  | Error_printing
  | Printing_failed
  | Usb_requires_pyusb
  | Usb_device_not_found
  | Out_endpoint_not_found
  | Usb_printing_error
  | Serial_requires_pyserial
  | Serial_printing_error
  | Image_requires_requests
  | Image_requires_pillow
  | Image_loaded
  | Failed_to_download_image int
  | Image_printing_error

text \<open>
  Every effect of a call, in the order it happens. \<open>Write bs\<close> is one call of the
  transport's \<open>write\<close> with the bytes \<open>bs\<close>; \<open>Dispose_resources\<close> is
  \<open>usb.util.dispose_resources(device)\<close> and \<open>Serial_close\<close> is \<open>ser.close()\<close>.
\<close>

datatype event =
    Print message
  | Messagebox message
  | Usb_find
  | Set_configuration
  | Serial_open json
  | Http_get pystr
  | Write "byte list"
  | Dispose_resources
  | Serial_close

fun written :: "event list \<Rightarrow> byte list list" where
  "written [] = []"
| "written (Write bs # es) = bs # written es"
| "written (e # es) = written es"

section \<open>The machine the program runs on\<close>

text \<open>
  A USB device as pyusb shows it. An attribute read through \<open>getattr(dev, name,
  'Unknown')\<close> is a string, \<open>None\<close>, missing (the default is taken) or raises an
  exception other than AttributeError.
\<close>

datatype attr = Attr_str pystr | Attr_none | Attr_missing | Attr_raises

datatype direction = Dir_in | Dir_out

record usb_device =
  bus :: nat
  address :: nat
  manufacturer :: attr
  product :: attr
  configurable :: bool
  endpoints :: "direction list"

text \<open>
  \<open>configurable\<close>: \<open>set_configuration()\<close>, \<open>get_active_configuration()\<close> and
  \<open>cfg[(0, 0)]\<close> succeed. \<open>endpoints\<close>: the endpoints of that interface.
\<close>

datatype http_result = Request_fails | Response int bool

text \<open>
  \<open>Response code ok\<close>: the GET returned with this status; \<open>ok\<close> tells whether
  \<open>Image.open\<close> accepts the body.

  The world: the two documents, the import flags, and how each collaborator answers.
  \<open>usb_devices\<close> is the result of \<open>usb.core.find(find_all=True)\<close> (\<open>None\<close>: it raises);
  \<open>serial_opens p\<close> tells whether \<open>serial.Serial(p, ...)\<close> returns;
  \<open>write_ok n bs\<close> tells whether the \<open>n\<close>-th \<open>write\<close> of the call (from 0), given
  \<open>bs\<close>, returns rather than raises; \<open>dispose_ok\<close> the same for the release.
\<close>

record world =
  device_file :: document
  type_file :: document
  tkinter_available :: bool
  pillow_available :: bool
  usb_available :: bool
  serial_available :: bool
  requests_available :: bool
  usb_devices :: "usb_device list option"
  serial_opens :: "pystr \<Rightarrow> bool"
  write_ok :: "nat \<Rightarrow> byte list \<Rightarrow> bool"
  dispose_ok :: bool
  http :: "pystr \<Rightarrow> http_result"

section \<open>PrinterManager: the configuration store\<close>

text \<open>
  How a write of a document goes: written; \<open>open(filename, "w")\<close> raises and the file
  stays as it was; or \<open>json.dump\<close> raises after the file was opened and truncated,
  which leaves text that is no JSON document.
\<close>

datatype write_outcome = Written | Open_fails | Dump_fails


definition save_printer_type ::
  "write_outcome \<Rightarrow> json \<Rightarrow> document \<Rightarrow> (bool \<times> event list) \<times> document" where
  "save_printer_type outcome printer_type file =
     (case outcome of
        Written \<Rightarrow> ((True, []), Holds (JObj [(str_lit ''type_printer'', printer_type)]))
      | Open_fails \<Rightarrow> ((False, [Print Error_saving_printer_type]), file)
      | Dump_fails \<Rightarrow> ((False, [Print Error_saving_printer_type]), Unreadable))"

text \<open>The result \<open>JNull\<close> is Python's \<open>None\<close>.\<close>

definition load_printer_config :: "document \<Rightarrow> json \<times> event list" where
  "load_printer_config file =
     (case file of
        Absent \<Rightarrow> (JNull, [])
      | Unreadable \<Rightarrow> (JNull, [Print Error_loading_printer_config])
      | Holds data \<Rightarrow>
          (case dict_get data (str_lit ''printer'') JNull of
             Some v \<Rightarrow> (v, [])
           | None \<Rightarrow> (JNull, [Print Error_loading_printer_config])))"

definition load_printer_type :: "document \<Rightarrow> json \<times> event list" where
  "load_printer_type file =
     (case file of
        Absent \<Rightarrow> (JStr (str_lit ''usb''), [])
      | Unreadable \<Rightarrow> (JStr (str_lit ''usb''), [Print Error_loading_printer_type])
      | Holds data \<Rightarrow>
          (case dict_get data (str_lit ''type_printer'') (JStr (str_lit ''usb'')) of
             Some v \<Rightarrow> (v, [])
           | None \<Rightarrow> (JStr (str_lit ''usb''), [Print Error_loading_printer_type])))"


section \<open>PrinterManager: USB enumeration\<close>

text \<open>\<open>str(n)\<close> and the format \<open>{n:03d}\<close> for a number that is not negative.\<close>

fun str_nat :: "nat \<Rightarrow> pystr" where
  "str_nat n = (if n < 10 then [0x30 + n] else str_nat (n div 10) @ [0x30 + n mod 10])"

declare str_nat.simps [simp del]

definition format_03d :: "nat \<Rightarrow> pystr" where
  "format_03d n = replicate (3 - length (str_nat n)) 0x30 @ str_nat n"

text \<open>
  The text an attribute takes in the description; \<open>None\<close> when reading it raises.
\<close>

fun attr_text :: "attr \<Rightarrow> pystr option" where
  "attr_text (Attr_str s) = Some s"
| "attr_text Attr_none = Some (str_lit ''None'')"
| "attr_text Attr_missing = Some (str_lit ''Unknown'')"
| "attr_text Attr_raises = None"

text \<open>
  One entry of the list \<open>get_usb_devices\<close> returns. Of its six keys the program reads
  \<open>index\<close> and \<open>description\<close> only; \<open>bus\<close>, \<open>address\<close>, \<open>manufacturer\<close> and
  \<open>product\<close> repeat the device's attributes and are not kept here.
\<close>

record dev_info =
  index :: nat
  description :: pystr

definition describe :: "nat \<Rightarrow> usb_device \<Rightarrow> pystr option" where
  "describe i dev =
     (case attr_text (manufacturer dev) of
        None \<Rightarrow> None
      | Some m \<Rightarrow>
          (case attr_text (product dev) of
             None \<Rightarrow> None
           | Some p \<Rightarrow>
               Some (str_nat (i + 1) @ str_lit ''. '' @ format_03d (bus dev) @ str_lit ''-''
                     @ format_03d (address dev) @ str_lit '': '' @ m @ str_lit '' '' @ p)))"

text \<open>
  The loop over \<open>enumerate(usb_devices)\<close>. The flag is False when an attribute read
  raised: the loop stops there and the entries collected so far are returned.
\<close>

fun enumerate_devices :: "nat \<Rightarrow> usb_device list \<Rightarrow> dev_info list \<times> bool" where
  "enumerate_devices i [] = ([], True)"
| "enumerate_devices i (dev # rest) =
     (case describe i dev of
        None \<Rightarrow> ([], False)
      | Some d \<Rightarrow>
          (case enumerate_devices (i + 1) rest of
             (infos, ok) \<Rightarrow> (\<lparr>index = i + 1, description = d\<rparr> # infos, ok)))"

definition get_usb_devices :: "world \<Rightarrow> dev_info list \<times> event list" where
  "get_usb_devices w =
     (if \<not> usb_available w then ([], [Print Pyusb_not_installed])
      else
        (case usb_devices w of
           None \<Rightarrow> ([], [Usb_find, Print Error_detecting_usb_devices])
         | Some devs \<Rightarrow>
             (case enumerate_devices 0 devs of
                (infos, ok) \<Rightarrow>
                  (infos, Usb_find # (if ok then [] else [Print Error_detecting_usb_devices])))))"

section \<open>Printer\<close>

text \<open>
  A step of a print takes the events so far and returns them extended, with True when
  it completed and False when it raised. \<open>run\<close> performs steps in order and stops at
  the first that raises.
\<close>

type_synonym step = "event list \<Rightarrow> bool \<times> event list"

fun run :: "step list \<Rightarrow> step" where
  "run [] tr = (True, tr)"
| "run (a # rest) tr = (case a tr of (True, tr') \<Rightarrow> run rest tr' | (False, tr') \<Rightarrow> (False, tr'))"

definition dev_write :: "world \<Rightarrow> byte list \<Rightarrow> step" where
  "dev_write w bs tr = (write_ok w (length (written tr)) bs, tr @ [Write bs])"

text \<open>
  \<open>f"{line}\n".encode('utf-8')\<close>, the bytes of one receipt line, and the \<open>write\<close> of
  them: the encoding may raise, and then nothing is written.
\<close>

definition line_bytes :: "pystr \<Rightarrow> byte list option" where
  "line_bytes line = utf8_encode (line @ [0x0A])"

definition write_line :: "world \<Rightarrow> pystr \<Rightarrow> step" where
  "write_line w line tr =
     (case line_bytes line of None \<Rightarrow> (False, tr) | Some bs \<Rightarrow> dev_write w bs tr)"

definition dispose_resources :: "world \<Rightarrow> step" where
  "dispose_resources w tr = (dispose_ok w, tr @ [Dispose_resources])"

definition serial_close :: "world \<Rightarrow> step" where
  "serial_close w tr = (dispose_ok w, tr @ [Serial_close])"

text \<open>
  \<open>_print_image_from_url\<close> fetches and decodes the image and prints its size; nothing
  is sent to the output device. Every exception is caught inside.
\<close>

definition print_image_from_url :: "world \<Rightarrow> pystr \<Rightarrow> bool \<times> event list" where
  "print_image_from_url w image_url =
     (if \<not> requests_available w then (False, [Print Image_requires_requests])
      else if \<not> pillow_available w then (False, [Print Image_requires_pillow])
      else
        (case http w image_url of
           Request_fails \<Rightarrow> (False, [Http_get image_url, Print Image_printing_error])
         | Response status_code decodes \<Rightarrow>
             if status_code = 200 then
               (if decodes then (True, [Http_get image_url, Print Image_loaded])
                else (False, [Http_get image_url, Print Image_printing_error]))
             else (False, [Http_get image_url, Print (Failed_to_download_image status_code)])))"

text \<open>\<open>if logo_url: self._print_image_from_url(logo_url, ...)\<close>; the result is dropped.\<close>

definition print_logo :: "world \<Rightarrow> pystr option \<Rightarrow> step" where
  "print_logo w logo_url tr =
     (case logo_url of
        None \<Rightarrow> (True, tr)
      | Some url \<Rightarrow> if url = [] then (True, tr) else (True, tr @ snd (print_image_from_url w url)))"

text \<open>
  What the variable \<open>device\<close> of \<open>_print_to_usb\<close> holds: a device of the enumeration,
  \<open>None\<close>, or the configured value itself, which is no device object.
\<close>

datatype device = Usb usb_device | No_device | Not_a_device json

fun device_truthy :: "device \<Rightarrow> bool" where
  "device_truthy (Usb dev) = True"
| "device_truthy No_device = False"
| "device_truthy (Not_a_device v) = truthy v"

text \<open>\<open>device_info.startswith(tuple('123456789'))\<close>\<close>

definition starts_with_digit :: "pystr \<Rightarrow> bool" where
  "starts_with_digit s = (case s of [] \<Rightarrow> False | c # _ \<Rightarrow> 0x31 \<le> c \<and> c \<le> 0x39)"

text \<open>
  The \<open>for ... else\<close> over the enumeration. At the first entry with the configured
  description the devices are enumerated again and the one at \<open>index - 1\<close> is taken;
  \<open>None\<close> is an exception there (the enumeration raises, or the index is out of range).
\<close>

fun find_device :: "world \<Rightarrow> pystr \<Rightarrow> dev_info list \<Rightarrow> device option \<times> event list" where
  "find_device w device_info [] = (Some No_device, [])"
| "find_device w device_info (info # rest) =
     (if device_info = description info then
        (case usb_devices w of
           None \<Rightarrow> (None, [Usb_find])
         | Some devs \<Rightarrow>
             if index info - 1 < length devs then (Some (Usb (devs ! (index info - 1))), [Usb_find])
             else (None, [Usb_find]))
      else find_device w device_info rest)"

definition resolve_device :: "world \<Rightarrow> json \<Rightarrow> device option \<times> event list" where
  "resolve_device w device_info =
     (case device_info of
        JStr s \<Rightarrow>
          if starts_with_digit s then
            (case get_usb_devices w of
               (devices, ev) \<Rightarrow>
                 (case find_device w s devices of (device, ev') \<Rightarrow> (device, ev @ ev')))
          else (Some (Not_a_device device_info), [])
      | _ \<Rightarrow> (Some (Not_a_device device_info), []))"

definition usb_steps :: "world \<Rightarrow> pystr list \<Rightarrow> pystr option \<Rightarrow> bool \<Rightarrow> step list" where
  "usb_steps w text_lines logo_url is_buzzer =
     [print_logo w logo_url]
     @ map (write_line w) text_lines
     @ replicate 5 (dev_write w line_feed)
     @ [dev_write w cut, dev_write w line_feed]
     @ (if is_buzzer then [dev_write w buzzer] else [])
     @ [dispose_resources w]"

text \<open>
  \<open>_print_to_usb\<close>. Everything from the resolution of the device on stands in one
  \<open>try\<close>, whose handler prints the error and returns False.
\<close>

definition print_to_usb ::
  "world \<Rightarrow> json \<Rightarrow> pystr list \<Rightarrow> pystr option \<Rightarrow> bool \<Rightarrow> bool \<times> event list" where
  "print_to_usb w device_info text_lines logo_url is_buzzer =
     (if \<not> usb_available w then (False, [Print Usb_requires_pyusb])
      else
        (case resolve_device w device_info of
           (None, ev) \<Rightarrow> (False, ev @ [Print Usb_printing_error])
         | (Some device, ev) \<Rightarrow>
             if \<not> device_truthy device then (False, ev @ [Print Usb_device_not_found])
             else
               (case device of
                  Usb dev \<Rightarrow>
                    if \<not> configurable dev
                    then (False, ev @ [Set_configuration, Print Usb_printing_error])
                    else if Dir_out \<notin> set (endpoints dev)
                    then (False, ev @ [Set_configuration, Print Out_endpoint_not_found])
                    else
                      (case run (usb_steps w text_lines logo_url is_buzzer)
                              (ev @ [Set_configuration]) of
                         (True, tr) \<Rightarrow> (True, tr)
                       | (False, tr) \<Rightarrow> (False, tr @ [Print Usb_printing_error]))
                | _ \<Rightarrow> (False, ev @ [Print Usb_printing_error]))))"

text \<open>
  \<open>serial.Serial(port, baudrate=9600, timeout=1)\<close>: pyserial raises for a port that
  is not a string, and for a string when the port cannot be opened.
\<close>

definition serial_port_opens :: "world \<Rightarrow> json \<Rightarrow> bool" where
  "serial_port_opens w port = (case port of JStr p \<Rightarrow> serial_opens w p | _ \<Rightarrow> False)"

definition serial_steps :: "world \<Rightarrow> pystr list \<Rightarrow> pystr option \<Rightarrow> bool \<Rightarrow> step list" where
  "serial_steps w text_lines logo_url is_buzzer =
     [print_logo w logo_url]
     @ map (write_line w) text_lines
     @ replicate 5 (dev_write w line_feed)
     @ [dev_write w cut, dev_write w line_feed]
     @ (if is_buzzer then [dev_write w buzzer] else [])
     @ [serial_close w]"

definition print_to_serial ::
  "world \<Rightarrow> json \<Rightarrow> pystr list \<Rightarrow> pystr option \<Rightarrow> bool \<Rightarrow> bool \<times> event list" where
  "print_to_serial w port text_lines logo_url is_buzzer =
     (if \<not> serial_available w then (False, [Print Serial_requires_pyserial])
      else if \<not> serial_port_opens w port
      then (False, [Serial_open port, Print Serial_printing_error])
      else
        (case run (serial_steps w text_lines logo_url is_buzzer) [Serial_open port] of
           (True, tr) \<Rightarrow> (True, tr)
         | (False, tr) \<Rightarrow> (False, tr @ [Print Serial_printing_error])))"

text \<open>
  \<open>print_receipt\<close>. Both documents are loaded first. The \<open>try\<close> around the two calls
  never catches anything, since neither callee lets an exception out.
\<close>

definition print_receipt ::
  "world \<Rightarrow> pystr list \<Rightarrow> pystr option \<Rightarrow> bool \<Rightarrow> bool \<times> event list" where
  "print_receipt w receipt_lines logo_url is_buzzer =
     (case load_printer_config (device_file w) of
        (printer_config, ev1) \<Rightarrow>
          (case load_printer_type (type_file w) of
             (printer_type, ev2) \<Rightarrow>
               if \<not> truthy printer_config
               then (False, ev1 @ ev2 @ [Print No_printer_configured])
               else
                 (case (if printer_type = JStr (str_lit ''serial'')
                        then print_to_serial w printer_config receipt_lines logo_url is_buzzer
                        else print_to_usb w printer_config receipt_lines logo_url is_buzzer) of
                    (ok, ev) \<Rightarrow> (ok, ev1 @ ev2 @ ev))))"


section \<open>Python numbers\<close>

text \<open>
  \<open>str(i)\<close> of an int. CPython (3.11) refuses, with ValueError, to convert an int of
  more than 4300 digits; \<open>None\<close> is that exception.
\<close>

definition str_int :: "int \<Rightarrow> pystr option" where
  "str_int i =
     (let digits = str_nat (nat \<bar>i\<bar>)
      in if 4300 < length digits then None
         else Some (if i < 0 then 0x2D # digits else digits))"

text \<open>
  A Python float is an IEEE 754 binary64 number: a finite value (a rational; \<open>Finite 0\<close>
  is \<open>0.0\<close>), the negative zero, an infinity (\<open>Infinite True\<close> is \<open>-inf\<close>) or NaN.
  The rationals that occur under \<open>Finite\<close> are those binary64 has: the literals of
  the program and the results of \<open>round_double\<close>.
\<close>

datatype pyfloat = Finite rat | Neg_zero | Infinite bool | Not_a_number

fun negative :: "pyfloat \<Rightarrow> bool" where
  "negative (Finite x) = (x < 0)"
| "negative Neg_zero = True"
| "negative (Infinite n) = n"
| "negative Not_a_number = False"

definition is_zero :: "pyfloat \<Rightarrow> bool" where
  "is_zero f = (f = Finite 0 \<or> f = Neg_zero)"

definition is_infinite :: "pyfloat \<Rightarrow> bool" where
  "is_infinite f = (f = Infinite False \<or> f = Infinite True)"

definition signed_zero :: "bool \<Rightarrow> pyfloat" where
  "signed_zero n = (if n then Neg_zero else Finite 0)"

text \<open>Rounding to the nearest integer, ties to the even one.\<close>

definition round_half_even :: "rat \<Rightarrow> int" where
  "round_half_even x =
     (let f = \<lfloor>x\<rfloor>; r = x - of_int f
      in if r < 1 / 2 then f else if 1 / 2 < r then f + 1 else if even f then f else f + 1)"

text \<open>
  \<open>count_digits b n\<close> is the number of digits of \<open>n\<close> in base \<open>b\<close>, and \<open>floor_log b x\<close>
  the integer part of the base-\<open>b\<close> logarithm of a positive \<open>x\<close>.
\<close>

function count_digits :: "int \<Rightarrow> int \<Rightarrow> int" where
  "count_digits b n = (if n \<le> 0 \<or> b < 2 then 0 else 1 + count_digits b (n div b))"
  by pat_completeness auto
termination
proof (relation "measure (\<lambda>(b, n). nat n)")
  show "wf (measure (\<lambda>(b, n). nat n))" by simp
next
  fix b n :: int
  assume "\<not> (n \<le> 0 \<or> b < 2)"
  then have "0 < n" "1 < b" by simp_all
  then have "n div b < n" by (rule int_div_less_self)
  with \<open>0 < n\<close> show "((b, n div b), (b, n)) \<in> measure (\<lambda>(b, n). nat n)" by simp
qed

declare count_digits.simps [simp del]

definition floor_log :: "int \<Rightarrow> rat \<Rightarrow> int" where
  "floor_log b x =
     (if 1 \<le> x then count_digits b \<lfloor>x\<rfloor> - 1 else - count_digits b (\<lceil>1 / x\<rceil> - 1))"

text \<open>
  The float nearest to an exact result \<open>x\<close> that is not zero: 53 significant bits,
  ties to even, no bit below \<open>2 ^ - 1074\<close> (so small results are subnormal or a zero
  of the sign of \<open>x\<close>), and an infinity from \<open>2 ^ 1024\<close> on.
\<close>

definition round_double :: "rat \<Rightarrow> pyfloat" where
  "round_double x =
     (if x = 0 then Finite 0
      else
        (let e = max (floor_log 2 \<bar>x\<bar> - 52) (- 1074);
             v = of_int (round_half_even (\<bar>x\<bar> / 2 powi e)) * 2 powi e
         in if 2 ^ 1024 \<le> v then Infinite (x < 0)
            else if v = 0 then signed_zero (x < 0)
            else Finite (if x < 0 then - v else v)))"

text \<open>
  \<open>float(i)\<close> of an int, as in \<open>i * x\<close>: correctly rounded, and OverflowError (\<open>None\<close>)
  when the int is too large for a float.
\<close>

definition float_of_int :: "int \<Rightarrow> pyfloat option" where
  "float_of_int i = (case round_double (of_int i) of Infinite n \<Rightarrow> None | f \<Rightarrow> Some f)"

text \<open>\<open>*\<close> and \<open>+\<close> on floats never raise.\<close>

definition float_mul :: "pyfloat \<Rightarrow> pyfloat \<Rightarrow> pyfloat" where
  "float_mul a b =
     (if a = Not_a_number \<or> b = Not_a_number then Not_a_number
      else if is_infinite a \<or> is_infinite b then
        (if is_zero a \<or> is_zero b then Not_a_number else Infinite (negative a \<noteq> negative b))
      else if is_zero a \<or> is_zero b then signed_zero (negative a \<noteq> negative b)
      else
        (case (a, b) of
           (Finite x, Finite y) \<Rightarrow> round_double (x * y)
         | _ \<Rightarrow> Not_a_number))"

definition float_add :: "pyfloat \<Rightarrow> pyfloat \<Rightarrow> pyfloat" where
  "float_add a b =
     (if a = Not_a_number \<or> b = Not_a_number then Not_a_number
      else if is_infinite a \<and> is_infinite b then (if a = b then a else Not_a_number)
      else if is_infinite a then a
      else if is_infinite b then b
      else if is_zero a \<and> is_zero b then signed_zero (negative a \<and> negative b)
      else if is_zero a then b
      else if is_zero b then a
      else
        (case (a, b) of
           (Finite x, Finite y) \<Rightarrow> round_double (x + y)
         | _ \<Rightarrow> Not_a_number))"

text \<open>
  \<open>int * float\<close>: the int is converted first, which may raise.
\<close>

definition int_times_float :: "int \<Rightarrow> pyfloat \<Rightarrow> pyfloat option" where
  "int_times_float i x = (case float_of_int i of None \<Rightarrow> None | Some f \<Rightarrow> Some (float_mul f x))"

text \<open>
  \<open>sum\<close> of floats adds from the left, starting from the int 0, so the first addition
  is \<open>0.0 + x\<close>. (CPython up to 3.11; later versions carry a correction term, which
  changes nothing as long as no addition rounds.) The list is not empty where it is
  used; of an empty one \<open>sum\<close> is the int 0.
\<close>

definition py_sum :: "pyfloat list \<Rightarrow> pyfloat" where
  "py_sum xs = foldl float_add (Finite 0) xs"

text \<open>
  \<open>str\<close> of a float is its \<open>repr\<close>: the shortest decimal that rounds back to the same
  float, and of these the nearest. \<open>shortest_digits\<close> tries 1 to 16 digits, each with
  the two decimals around \<open>x\<close>, and takes 17 digits otherwise; the result \<open>(m, e)\<close>
  stands for \<open>m * 10 ^ e\<close>. \<open>x\<close> is positive.
\<close>

fun shortest_digits :: "nat list \<Rightarrow> rat \<Rightarrow> int \<times> int" where
  "shortest_digits [] x =
     (round_half_even (x / 10 powi (floor_log 10 x - 16)), floor_log 10 x - 16)"
| "shortest_digits (d # ds) x =
     (let e = floor_log 10 x - int d + 1;
          lo = \<lfloor>x / 10 powi e\<rfloor>;
          hi = lo + 1;
          ok_lo = (round_double (of_int lo * 10 powi e) = Finite x);
          ok_hi = (round_double (of_int hi * 10 powi e) = Finite x)
      in if ok_lo \<and> ok_hi
         then (if x - of_int lo * 10 powi e \<le> of_int hi * 10 powi e - x then (lo, e) else (hi, e))
         else if ok_lo then (lo, e)
         else if ok_hi then (hi, e)
         else shortest_digits ds x)"

definition digit_counts :: "nat list" where
  "digit_counts = [1, 2, 3, 4, 5, 6, 7, 8, 9, 10, 11, 12, 13, 14, 15, 16]"

definition strip_zeros :: "pystr \<Rightarrow> pystr" where
  "strip_zeros ds = rev (dropWhile (\<lambda>c. c = 0x30) (rev ds))"

text \<open>
  The digits are laid out as \<open>repr\<close> does: plainly when the decimal point falls within
  \<open>-4 < decpt <= 16\<close>, with at least one digit after the point, and with an exponent
  of at least two digits otherwise.
\<close>

definition positive_str :: "rat \<Rightarrow> pystr" where
  "positive_str x =
     (case shortest_digits digit_counts x of
        (m, e) \<Rightarrow>
          (let all = str_nat (nat m);
               ds = strip_zeros all;
               decpt = int (length all) + e
           in if - 4 < decpt \<and> decpt \<le> 16 then
                (if decpt \<le> 0
                 then str_lit ''0.'' @ replicate (nat (- decpt)) 0x30 @ ds
                 else if int (length ds) \<le> decpt
                 then ds @ replicate (nat (decpt - int (length ds))) 0x30 @ str_lit ''.0''
                 else take (nat decpt) ds @ str_lit ''.'' @ drop (nat decpt) ds)
              else
                take 1 ds
                @ (if 1 < length ds then str_lit ''.'' @ drop 1 ds else [])
                @ str_lit ''e''
                @ (if decpt - 1 < 0 then str_lit ''-'' else str_lit ''+'')
                @ replicate (2 - length (str_nat (nat \<bar>decpt - 1\<bar>))) 0x30
                @ str_nat (nat \<bar>decpt - 1\<bar>)))"

fun float_str :: "pyfloat \<Rightarrow> pystr" where
  "float_str Not_a_number = str_lit ''nan''"
| "float_str (Infinite n) = (if n then str_lit ''-inf'' else str_lit ''inf'')"
| "float_str Neg_zero = str_lit ''-0.0''"
| "float_str (Finite x) =
     (if x = 0 then str_lit ''0.0''
      else if x < 0 then str_lit ''-'' @ positive_str (- x)
      else positive_str x)"

section \<open>PrintFormatter.format_receipt_item\<close>

text \<open>
  The product is computed first, then the four fields are formatted from left to
  right; \<open>None\<close> is an exception from any of these steps.
\<close>

definition format_receipt_item ::
  "pystr \<Rightarrow> int \<Rightarrow> pyfloat \<Rightarrow> int \<Rightarrow> int \<Rightarrow> int \<Rightarrow> int \<Rightarrow> pystr option" where
  "format_receipt_item name qty price name_width qty_width price_width total_width =
     do {
       extended_price \<leftarrow> int_times_float qty price;
       name_field \<leftarrow> py_ljust name name_width;
       qty_text \<leftarrow> str_int qty;
       qty_field \<leftarrow> py_ljust qty_text qty_width;
       price_field \<leftarrow> py_ljust (float_str price) price_width;
       total_field \<leftarrow> py_rjust (float_str extended_price) total_width;
       Some (name_field @ qty_field @ price_field @ total_field)
     }"

section \<open>Printer.print_test_receipt\<close>

text \<open>The sample items, dicts with the keys \<open>name\<close>, \<open>qty\<close> and \<open>price\<close>.\<close>

record receipt_item =
  item_name :: pystr
  item_qty :: int
  item_price :: pyfloat

definition test_items :: "receipt_item list" where
  "test_items =
     [\<lparr>item_name = str_lit ''Item 1'', item_qty = 2, item_price = Finite 10\<rparr>,
      \<lparr>item_name = str_lit ''Item 2'', item_qty = 1, item_price = Finite 20\<rparr>,
      \<lparr>item_name = str_lit ''Item 3'', item_qty = 3, item_price = Finite 5\<rparr>]"

text \<open>The loop that formats one centred line per item.\<close>

fun item_lines :: "receipt_item list \<Rightarrow> pystr list option" where
  "item_lines [] = Some []"
| "item_lines (item # rest) =
     do {
       line \<leftarrow> format_receipt_item (item_name item) (item_qty item) (item_price item) 15 4 7 10;
       centred \<leftarrow> py_center line 45;
       more \<leftarrow> item_lines rest;
       Some (centred # more)
     }"

text \<open>The products \<open>item['qty'] * item['price']\<close> that \<open>sum\<close> draws from the generator.\<close>

fun extended_prices :: "receipt_item list \<Rightarrow> pyfloat list option" where
  "extended_prices [] = Some []"
| "extended_prices (item # rest) =
     do {
       p \<leftarrow> int_times_float (item_qty item) (item_price item);
       more \<leftarrow> extended_prices rest;
       Some (p # more)
     }"

definition total :: "pyfloat option" where
  "total = map_option py_sum (extended_prices test_items)"

text \<open>
  The lines of the test receipt, in the order the program builds them: the eight
  header lines, one line per item, then the total and the footer.
\<close>

definition test_receipt_lines :: "pystr list option" where
  "test_receipt_lines =
     do {
       rule \<leftarrow> holder_line (str_lit ''-'') 44;
       l1 \<leftarrow> py_center rule 45;
       company \<leftarrow> bold (str_lit ''Your Company Name'');
       l2 \<leftarrow> py_center company 45;
       l3 \<leftarrow> py_center (str_lit ''123 Main St, City'') 45;
       l4 \<leftarrow> py_center (str_lit ''Phone: 123-456-7890'') 45;
       date \<leftarrow> bold (str_lit ''Date: 2023-12-31'');
       l5 \<leftarrow> py_center date 45;
       l6 \<leftarrow> py_center rule 45;
       l7 \<leftarrow> py_center (str_lit ''Item          Qty  Price     Ext Price'') 45;
       l8 \<leftarrow> py_center rule 45;
       items \<leftarrow> item_lines test_items;
       sum \<leftarrow> total;
       l12 \<leftarrow> py_center rule 45;
       label \<leftarrow> py_ljust (str_lit ''Total'') 10;
       amount \<leftarrow> py_rjust (float_str sum) 8;
       l13 \<leftarrow> py_center (label @ amount) 45;
       l14 \<leftarrow> py_center rule 45;
       l15 \<leftarrow> py_center (str_lit ''Thank you for your business!'') 45;
       l16 \<leftarrow> py_center rule 45;
       Some ([l1, l2, l3, l4, l5, l6, l7, l8] @ items @ [l12, l13, l14, l15, l16])
     }"

text \<open>
  \<open>print_test_receipt\<close>. The result \<open>None\<close> is an exception that leaves the function:
  only the call of \<open>print_receipt\<close> stands in the \<open>try\<close>, and that call never raises.
  The warning dialog is taken to return.
\<close>

definition print_test_receipt :: "world \<Rightarrow> (bool \<times> event list) option" where
  "print_test_receipt w =
     (case load_printer_config (device_file w) of
        (printer_config, ev1) \<Rightarrow>
          (case load_printer_type (type_file w) of
             (printer_type, ev2) \<Rightarrow>
               if \<not> truthy printer_config
               then Some (False,
                          ev1 @ ev2 @ [Print No_printer_configured_select_first]
                          @ (if tkinter_available w then [Messagebox No_printer_configured]
                             else []))
               else
                 (case test_receipt_lines of
                    None \<Rightarrow> None
                  | Some receipt_lines \<Rightarrow>
                      (case print_receipt w receipt_lines None True of
                         (ok, ev) \<Rightarrow> Some (ok, ev1 @ ev2 @ ev)))))"

text \<open>The sixteen lines of the test receipt, as they are printed.\<close>

definition printed_test_receipt :: "pystr list" where
  "printed_test_receipt =
     [str_lit '' --------------------------------------------'',
      replicate 11 0x20 @ [0x1B, 0x45, 0x01] @ str_lit ''Your Company Name''
        @ [0x1B, 0x45, 0x00] @ replicate 11 0x20,
      str_lit ''              123 Main St, City              '',
      str_lit ''             Phone: 123-456-7890             '',
      replicate 12 0x20 @ [0x1B, 0x45, 0x01] @ str_lit ''Date: 2023-12-31''
        @ [0x1B, 0x45, 0x00] @ replicate 11 0x20,
      str_lit '' --------------------------------------------'',
      str_lit ''    Item          Qty  Price     Ext Price   '',
      str_lit '' --------------------------------------------'',
      str_lit ''     Item 1         2   10.0         20.0    '',
      str_lit ''     Item 2         1   20.0         20.0    '',
      str_lit ''     Item 3         3   5.0          15.0    '',
      str_lit '' --------------------------------------------'',
      str_lit ''              Total         55.0             '',
      str_lit '' --------------------------------------------'',
      str_lit ''         Thank you for your business!        '',
      str_lit '' --------------------------------------------'']"

section \<open>Example machines\<close>

text \<open>
  A machine configured for the serial port \<open>/dev/ttyUSB0\<close>, which opens and accepts
  every write, and one configured for the first USB device, a printer with an OUT
  endpoint; its transport-kind document is absent. No logo can be fetched on either.
\<close>

definition serial_world :: world where
  "serial_world =
     \<lparr>device_file = Holds (JObj [(str_lit ''printer'', JStr (str_lit ''/dev/ttyUSB0''))]),
      type_file = Holds (JObj [(str_lit ''type_printer'', JStr (str_lit ''serial''))]),
      tkinter_available = False, pillow_available = True, usb_available = True,
      serial_available = True, requests_available = True,
      usb_devices = Some [],
      serial_opens = (\<lambda>p. p = str_lit ''/dev/ttyUSB0''),
      write_ok = (\<lambda>n bs. True),
      dispose_ok = True,
      http = (\<lambda>url. Request_fails)\<rparr>"

definition acme_printer :: usb_device where
  "acme_printer =
     \<lparr>bus = 1, address = 4, manufacturer = Attr_str (str_lit ''ACME''),
      product = Attr_str (str_lit ''TP80''), configurable = True,
      endpoints = [Dir_in, Dir_out]\<rparr>"

definition usb_world :: world where
  "usb_world =
     \<lparr>device_file = Holds (JObj [(str_lit ''printer'', JStr (str_lit ''1. 001-004: ACME TP80''))]),
      type_file = Absent,
      tkinter_available = False, pillow_available = True, usb_available = True,
      serial_available = True, requests_available = True,
      usb_devices = Some [acme_printer],
      serial_opens = (\<lambda>p. False),
      write_ok = (\<lambda>n bs. True),
      dispose_ok = True,
      http = (\<lambda>url. Request_fails)\<rparr>"


section \<open>Sets of events\<close>

text \<open>The events that do not touch a serial port.\<close>

definition usb_events :: "event set" where
  "usb_events = {e. (\<forall>p. e \<noteq> Serial_open p) \<and> e \<noteq> Serial_close}"

text \<open>
  A step is blind to the events \<open>ev\<close> when putting them into the events so far changes
  neither its outcome nor what it adds.
\<close>

definition blind_to :: "event list \<Rightarrow> step \<Rightarrow> bool" where
  "blind_to ev s =
     (\<forall>pre post. \<exists>b ext. s (pre @ post) = (b, pre @ post @ ext)
                       \<and> s (pre @ ev @ post) = (b, pre @ ev @ post @ ext))"

section \<open>Facts about strings, bytes and traces\<close>

lemma utf8_encode_append:
  "utf8_encode (xs @ ys) =
     (case utf8_encode xs of
        None \<Rightarrow> None
      | Some a \<Rightarrow> (case utf8_encode ys of None \<Rightarrow> None | Some b \<Rightarrow> Some (a @ b)))"
  by (induction xs) (auto split: option.splits)

lemma replicate_numeral: "replicate (numeral k) x = x # replicate (pred_numeral k) x"
  by (simp add: numeral_eq_Suc)

lemma str_nat_numeral [simp]:
  "str_nat (numeral k) =
     (if numeral k < (10::nat) then [0x30 + numeral k]
      else str_nat (numeral k div 10) @ [0x30 + numeral k mod 10])"
  by (rule str_nat.simps)

lemma str_nat_0 [simp]: "str_nat 0 = [0x30]"
  by (simp add: str_nat.simps)

lemma str_nat_1 [simp]: "str_nat (Suc 0) = [0x31]"
  by (simp add: str_nat.simps)

lemma count_digits_numeral [simp]:
  "count_digits b (numeral k) =
     (if b < 2 then 0 else 1 + count_digits b (numeral k div b))"
  by (subst count_digits.simps) simp

lemma count_digits_0 [simp]: "count_digits b 0 = 0"
  by (simp add: count_digits.simps)

lemma count_digits_1 [simp]: "count_digits b 1 = (if b < 2 then 0 else 1)"
  by (subst count_digits.simps) (simp add: count_digits.simps)

lemma floor_rat_numeral [simp]: "\<lfloor>numeral a / numeral b :: rat\<rfloor> = numeral a div numeral b"
  by (metis floor_divide_of_int_eq of_int_numeral)

lemmas float_eval =
  round_double_def floor_log_def round_half_even_def Let_def digit_counts_def signed_zero_def
  is_zero_def is_infinite_def

lemma small_doubles:
  "round_double 1 = Finite 1" "round_double 2 = Finite 2" "round_double 3 = Finite 3"
  "round_double 15 = Finite 15" "round_double 20 = Finite 20" "round_double 40 = Finite 40"
  "round_double 55 = Finite 55" "round_double (15 / 2) = Finite (15 / 2)"
  by (simp_all add: float_eval)

lemma widget_price: "int_times_float 3 (Finite (5 / 2)) = Some (Finite (15 / 2))"
  by (simp add: int_times_float_def float_of_int_def float_mul_def small_doubles is_zero_def
      is_infinite_def)

lemma widget_texts:
  "float_str (Finite (5 / 2)) = str_lit ''2.5''" "float_str (Finite (15 / 2)) = str_lit ''7.5''"
  by (simp_all add: positive_str_def float_eval strip_zeros_def str_lit_def)


lemma small_doubles_more:
  "round_double 5 = Finite 5" "round_double 10 = Finite 10"
  by (simp_all add: float_eval)

lemma sample_prices:
  "int_times_float 2 (Finite 10) = Some (Finite 20)"
  "int_times_float 1 (Finite 20) = Some (Finite 20)"
  "int_times_float 3 (Finite 5) = Some (Finite 15)"
  by (simp_all add: int_times_float_def float_of_int_def float_mul_def small_doubles is_zero_def
      is_infinite_def)

lemma sample_sum: "py_sum [Finite 20, Finite 20, Finite 15] = Finite 55"
  by (simp add: py_sum_def float_add_def small_doubles is_zero_def is_infinite_def)

lemma sample_texts:
  "float_str (Finite 5) = str_lit ''5.0''" "float_str (Finite 10) = str_lit ''10.0''"
  "float_str (Finite 15) = str_lit ''15.0''" "float_str (Finite 20) = str_lit ''20.0''"
  "float_str (Finite 55) = str_lit ''55.0''"
  by (simp_all add: positive_str_def float_eval strip_zeros_def str_lit_def)

lemma str_small_ints:
  "str_int 1 = Some (str_lit ''1'')" "str_int 2 = Some (str_lit ''2'')"
  "str_int 3 = Some (str_lit ''3'')"
  by (simp_all add: str_int_def str_lit_def)

lemma written_append: "written (xs @ ys) = written xs @ written ys"
  by (induction xs rule: written.induct) auto

lemma written_map_Write: "written (map Write bss) = bss"
  by (induction bss) auto

lemma written_replicate_Write: "written (replicate n (Write bs)) = replicate n bs"
  by (induction n) auto

lemma written_map_Print: "written (map Print ms) = []"
  by (induction ms) auto

section \<open>Padding\<close>

lemma py_center_unchanged:
  "fits_ssize w \<Longrightarrow> w \<le> int (length t) \<Longrightarrow> py_center t w = Some t"
  by (simp add: py_center_def)

lemma py_center_padded:
  assumes "fits_ssize w" and "int (length t) < w"
  shows "\<exists>r. py_center t w = Some r \<and> int (length r) = w \<and> (\<exists>p q. r = p @ t @ q)"
proof -
  define marg where "marg = nat (w - int (length t))"
  define left where "left = marg div 2 + (if odd marg \<and> odd w then 1 else 0)"
  have "left \<le> marg"
    unfolding left_def by (cases "odd marg") (auto elim: oddE)
  moreover have "py_center t w = Some (replicate left 0x20 @ t @ replicate (marg - left) 0x20)"
    using assms by (simp add: py_center_def Let_def marg_def left_def)
  ultimately have
    "py_center t w = Some (replicate left 0x20 @ t @ replicate (marg - left) 0x20)
     \<and> int (length (replicate left 0x20 @ t @ replicate (marg - left) (0x20::nat))) = w"
    using assms by (simp add: marg_def)
  then show ?thesis by blast
qed

lemma py_ljust_unchanged:
  "fits_ssize w \<Longrightarrow> w \<le> int (length t) \<Longrightarrow> py_ljust t w = Some t"
  by (simp add: py_ljust_def)

lemma py_ljust_padded:
  assumes "fits_ssize w" and "int (length t) < w"
  shows "\<exists>r. py_ljust t w = Some r \<and> int (length r) = w \<and> (\<exists>p q. r = p @ t @ q)"
proof -
  let ?r = "[] @ t @ replicate (nat (w - int (length t))) (0x20::nat)"
  from assms have "py_ljust t w = Some ?r \<and> int (length ?r) = w"
    by (simp add: py_ljust_def)
  then show ?thesis by blast
qed

lemma py_rjust_unchanged:
  "fits_ssize w \<Longrightarrow> w \<le> int (length t) \<Longrightarrow> py_rjust t w = Some t"
  by (simp add: py_rjust_def)

lemma py_rjust_padded:
  assumes "fits_ssize w" and "int (length t) < w"
  shows "\<exists>r. py_rjust t w = Some r \<and> int (length r) = w \<and> (\<exists>p q. r = p @ t @ q)"
proof -
  let ?r = "replicate (nat (w - int (length t))) (0x20::nat) @ t @ []"
  from assms have "py_rjust t w = Some ?r \<and> int (length ?r) = w"
    by (simp add: py_rjust_def)
  then show ?thesis by blast
qed

text \<open>
  C4, as stated, fails on the code: the three functions raise OverflowError for a width
  that does not fit \<open>Py_ssize_t\<close>. At the width \<open>2 ^ 63\<close> the text \<open>ab\<close> is shorter than
  the width and no string of that length is returned; at \<open>- (2 ^ 63) - 1\<close> it is not
  shorter and is not returned unchanged.
\<close>

theorem align_width_overflow:
  "int (length (str_lit ''ab'')) < 2 ^ 63 \<and>
   center (str_lit ''ab'') (2 ^ 63) = None \<and>
   left_align (str_lit ''ab'') (2 ^ 63) = None \<and>
   right_align (str_lit ''ab'') (2 ^ 63) = None \<and>
   - (2 ^ 63) - 1 \<le> int (length (str_lit ''ab'')) \<and>
   center (str_lit ''ab'') (- (2 ^ 63) - 1) = None \<and>
   left_align (str_lit ''ab'') (- (2 ^ 63) - 1) = None \<and>
   right_align (str_lit ''ab'') (- (2 ^ 63) - 1) = None"
  by (simp add: center_def left_align_def right_align_def py_center_def py_ljust_def
      py_rjust_def fits_ssize_def str_lit_def)

text \<open>
  C4, amended. For every string \<open>s\<close> and every width \<open>w\<close> that fits \<open>Py_ssize_t\<close>
  (\<open>- 2 ^ 63 \<le> w < 2 ^ 63\<close>), \<open>center\<close>, \<open>left_align\<close> and \<open>right_align\<close> return \<open>s\<close>
  itself when \<open>len(s) >= w\<close>; when \<open>len(s) < w\<close> each returns a string of length
  exactly \<open>w\<close> that has \<open>s\<close> as a contiguous part, so nothing is ever cut off. For
  every other width each of them raises.
\<close>

theorem align_pads_never_truncates:
  "(fits_ssize w \<and> w \<le> int (length s) \<longrightarrow>
      center s w = Some s \<and> left_align s w = Some s \<and> right_align s w = Some s) \<and>
   (fits_ssize w \<and> int (length s) < w \<longrightarrow>
      (\<exists>r. center s w = Some r \<and> int (length r) = w \<and> (\<exists>p q. r = p @ s @ q)) \<and>
      (\<exists>r. left_align s w = Some r \<and> int (length r) = w \<and> (\<exists>p q. r = p @ s @ q)) \<and>
      (\<exists>r. right_align s w = Some r \<and> int (length r) = w \<and> (\<exists>p q. r = p @ s @ q))) \<and>
   (\<not> fits_ssize w \<longrightarrow>
      center s w = None \<and> left_align s w = None \<and> right_align s w = None)"
proof (intro conjI impI)
  assume "fits_ssize w \<and> w \<le> int (length s)"
  then show "center s w = Some s" "left_align s w = Some s" "right_align s w = Some s"
    by (simp_all add: center_def left_align_def right_align_def py_center_unchanged
        py_ljust_unchanged py_rjust_unchanged)
next
  assume "fits_ssize w \<and> int (length s) < w"
  then have w: "fits_ssize w" "int (length s) < w" by simp_all
  show "\<exists>r. center s w = Some r \<and> int (length r) = w \<and> (\<exists>p q. r = p @ s @ q)"
    unfolding center_def by (rule py_center_padded [OF w])
  show "\<exists>r. left_align s w = Some r \<and> int (length r) = w \<and> (\<exists>p q. r = p @ s @ q)"
    unfolding left_align_def by (rule py_ljust_padded [OF w])
  show "\<exists>r. right_align s w = Some r \<and> int (length r) = w \<and> (\<exists>p q. r = p @ s @ q)"
    unfolding right_align_def by (rule py_rjust_padded [OF w])
next
  assume "\<not> fits_ssize w"
  then show "center s w = None" "left_align s w = None" "right_align s w = None"
    by (simp_all add: center_def left_align_def right_align_def py_center_def py_ljust_def
        py_rjust_def)
qed

theorem align_pads_never_truncates_witness:
  "fits_ssize 3 \<and> (3::int) \<le> int (length (str_lit ''abc'')) \<and>
   center (str_lit ''abc'') 3 = Some (str_lit ''abc'') \<and>
   left_align (str_lit ''abc'') 3 = Some (str_lit ''abc'') \<and>
   right_align (str_lit ''abc'') 3 = Some (str_lit ''abc'') \<and>
   fits_ssize 5 \<and> int (length (str_lit ''ab'')) < 5 \<and>
   center (str_lit ''ab'') 5 = Some (str_lit ''  ab '') \<and>
   left_align (str_lit ''ab'') 5 = Some (str_lit ''ab   '') \<and>
   right_align (str_lit ''ab'') 5 = Some (str_lit ''   ab'') \<and>
   \<not> fits_ssize (2 ^ 63) \<and>
   center (str_lit ''ab'') (2 ^ 63) = None"
  using align_pads_never_truncates [of 3 "str_lit ''abc''"]
    align_pads_never_truncates [of 5 "str_lit ''ab''"]
    align_pads_never_truncates [of "2 ^ 63" "str_lit ''ab''"]
  by (simp add: str_lit_def center_def left_align_def right_align_def py_center_def
      py_ljust_def py_rjust_def fits_ssize_def replicate_numeral)

section \<open>Control bytes inside strings\<close>

text \<open>Every string without a lone surrogate has a UTF-8 encoding.\<close>

lemma encode_cp_scalar:
  "c < 0xD800 \<or> (0xE000 \<le> c \<and> c < 0x110000) \<Longrightarrow> \<exists>bs. encode_cp c = Some bs"
  by (auto simp: encode_cp_def)

lemma utf8_encode_scalars:
  "\<forall>c\<in>set cs. c < 0xD800 \<or> (0xE000 \<le> c \<and> c < 0x110000) \<Longrightarrow> \<exists>bs. utf8_encode cs = Some bs"
proof (induction cs)
  case Nil
  then show ?case by simp
next
  case (Cons c cs)
  then obtain b bs where "encode_cp c = Some b" "utf8_encode cs = Some bs"
    using encode_cp_scalar [of c] by auto
  then show ?case by simp
qed

lemma command_strings:
  "utf8_decode bold_on = Some [0x1B, 0x45, 0x01]" "utf8_encode [0x1B, 0x45, 0x01] = Some bold_on"
  "utf8_decode bold_off = Some [0x1B, 0x45, 0x00]" "utf8_encode [0x1B, 0x45, 0x00] = Some bold_off"
  "utf8_decode large_on = Some [0x1B, 0x21, 0x10]" "utf8_encode [0x1B, 0x21, 0x10] = Some large_on"
  "utf8_decode large_off = Some [0x1B, 0x21, 0x00]" "utf8_encode [0x1B, 0x21, 0x00] = Some large_off"
  by (simp_all add: bold_on_def bold_off_def large_on_def large_off_def encode_cp_def)

lemma wrapped_bytes:
  assumes "utf8_encode a = Some on" and "utf8_encode b = Some off"
  shows "utf8_encode (a @ line @ b) = map_option (\<lambda>t. on @ t @ off) (utf8_encode line)"
    and "line_bytes (a @ line @ b) = map_option (\<lambda>t. on @ t @ off @ [0x0A]) (utf8_encode line)"
  using assms
  by (simp_all add: line_bytes_def utf8_encode_append encode_cp_def split: option.splits)

text \<open>
  C8. The command bytes decode to strings that encode back to the same bytes, and
  \<open>bold(text)\<close> and \<open>large(text)\<close> put the text between these strings. So for every
  text that has an encoding \<open>t\<close> - every text without a lone surrogate has one -
  encoding the result as the transport does gives the on-command bytes, then \<open>t\<close>, then
  the off-command bytes (and the newline, for a receipt line). A text that cannot be
  encoded cannot be encoded once wrapped either.
\<close>

theorem control_bytes_survive_round_trip:
  "(\<exists>a b. utf8_decode bold_on = Some a \<and> utf8_encode a = Some bold_on \<and>
          utf8_decode bold_off = Some b \<and> utf8_encode b = Some bold_off \<and>
          bold line = Some (a @ line @ b) \<and>
          utf8_encode (a @ line @ b)
            = map_option (\<lambda>t. bold_on @ t @ bold_off) (utf8_encode line) \<and>
          line_bytes (a @ line @ b)
            = map_option (\<lambda>t. bold_on @ t @ bold_off @ [0x0A]) (utf8_encode line)) \<and>
   (\<exists>a b. utf8_decode large_on = Some a \<and> utf8_encode a = Some large_on \<and>
          utf8_decode large_off = Some b \<and> utf8_encode b = Some large_off \<and>
          large line = Some (a @ line @ b) \<and>
          utf8_encode (a @ line @ b)
            = map_option (\<lambda>t. large_on @ t @ large_off) (utf8_encode line) \<and>
          line_bytes (a @ line @ b)
            = map_option (\<lambda>t. large_on @ t @ large_off @ [0x0A]) (utf8_encode line)) \<and>
   ((\<forall>c\<in>set line. c < 0xD800 \<or> (0xE000 \<le> c \<and> c < 0x110000)) \<longrightarrow>
      (\<exists>t s s'. utf8_encode line = Some t \<and>
          bold line = Some s \<and> utf8_encode s = Some (bold_on @ t @ bold_off) \<and>
          line_bytes s = Some (bold_on @ t @ bold_off @ [0x0A]) \<and>
          large line = Some s' \<and> utf8_encode s' = Some (large_on @ t @ large_off) \<and>
          line_bytes s' = Some (large_on @ t @ large_off @ [0x0A])))"
proof -
  have wrap_bold: "bold line = Some ([0x1B, 0x45, 0x01] @ line @ [0x1B, 0x45, 0x00])"
    by (simp add: bold_def command_strings)
  have wrap_large: "large line = Some ([0x1B, 0x21, 0x10] @ line @ [0x1B, 0x21, 0x00])"
    by (simp add: large_def command_strings)
  note bold_bytes = wrapped_bytes [OF command_strings(2) command_strings(4), of line]
  note large_bytes = wrapped_bytes [OF command_strings(6) command_strings(8), of line]
  have part1: "\<exists>a b. utf8_decode bold_on = Some a \<and> utf8_encode a = Some bold_on \<and>
          utf8_decode bold_off = Some b \<and> utf8_encode b = Some bold_off \<and>
          bold line = Some (a @ line @ b) \<and>
          utf8_encode (a @ line @ b)
            = map_option (\<lambda>t. bold_on @ t @ bold_off) (utf8_encode line) \<and>
          line_bytes (a @ line @ b)
            = map_option (\<lambda>t. bold_on @ t @ bold_off @ [0x0A]) (utf8_encode line)"
    using command_strings(1-4) wrap_bold bold_bytes by blast
  have part2: "\<exists>a b. utf8_decode large_on = Some a \<and> utf8_encode a = Some large_on \<and>
          utf8_decode large_off = Some b \<and> utf8_encode b = Some large_off \<and>
          large line = Some (a @ line @ b) \<and>
          utf8_encode (a @ line @ b)
            = map_option (\<lambda>t. large_on @ t @ large_off) (utf8_encode line) \<and>
          line_bytes (a @ line @ b)
            = map_option (\<lambda>t. large_on @ t @ large_off @ [0x0A]) (utf8_encode line)"
    using command_strings(5-8) wrap_large large_bytes by blast
  have part3: "\<exists>t s s'. utf8_encode line = Some t \<and>
          bold line = Some s \<and> utf8_encode s = Some (bold_on @ t @ bold_off) \<and>
          line_bytes s = Some (bold_on @ t @ bold_off @ [0x0A]) \<and>
          large line = Some s' \<and> utf8_encode s' = Some (large_on @ t @ large_off) \<and>
          line_bytes s' = Some (large_on @ t @ large_off @ [0x0A])"
    if "\<forall>c\<in>set line. c < 0xD800 \<or> (0xE000 \<le> c \<and> c < 0x110000)"
  proof -
    from utf8_encode_scalars [OF that] obtain t where t: "utf8_encode line = Some t"
      by blast
    from bold_bytes large_bytes have
      "utf8_encode ([0x1B, 0x45, 0x01] @ line @ [0x1B, 0x45, 0x00]) = Some (bold_on @ t @ bold_off)"
      "line_bytes ([0x1B, 0x45, 0x01] @ line @ [0x1B, 0x45, 0x00])
         = Some (bold_on @ t @ bold_off @ [0x0A])"
      "utf8_encode ([0x1B, 0x21, 0x10] @ line @ [0x1B, 0x21, 0x00]) = Some (large_on @ t @ large_off)"
      "line_bytes ([0x1B, 0x21, 0x10] @ line @ [0x1B, 0x21, 0x00])
         = Some (large_on @ t @ large_off @ [0x0A])"
      unfolding t by simp_all
    with t wrap_bold wrap_large show ?thesis by blast
  qed
  from part1 part2 part3 show ?thesis by blast
qed

theorem control_bytes_survive_round_trip_witness:
  "str_lit ''Hi'' = [0x48, 0x69] \<and> (0x48::nat) < 0xD800 \<and> (0x69::nat) < 0xD800 \<and>
   utf8_encode (str_lit ''Hi'') = Some [0x48, 0x69] \<and>
   bold (str_lit ''Hi'') = Some [0x1B, 0x45, 0x01, 0x48, 0x69, 0x1B, 0x45, 0x00] \<and>
   utf8_encode [0x1B, 0x45, 0x01, 0x48, 0x69, 0x1B, 0x45, 0x00]
     = Some [0x1B, 0x45, 0x01, 0x48, 0x69, 0x1B, 0x45, 0x00] \<and>
   line_bytes [0x1B, 0x45, 0x01, 0x48, 0x69, 0x1B, 0x45, 0x00]
     = Some [0x1B, 0x45, 0x01, 0x48, 0x69, 0x1B, 0x45, 0x00, 0x0A] \<and>
   large (str_lit ''Hi'') = Some [0x1B, 0x21, 0x10, 0x48, 0x69, 0x1B, 0x21, 0x00] \<and>
   line_bytes [0x1B, 0x21, 0x10, 0x48, 0x69, 0x1B, 0x21, 0x00]
     = Some [0x1B, 0x21, 0x10, 0x48, 0x69, 0x1B, 0x21, 0x00, 0x0A] \<and>
   bold [0xE9, 0x20AC] = Some [0x1B, 0x45, 0x01, 0xE9, 0x20AC, 0x1B, 0x45, 0x00] \<and>
   line_bytes [0x1B, 0x45, 0x01, 0xE9, 0x20AC, 0x1B, 0x45, 0x00]
     = Some [0x1B, 0x45, 0x01, 0xC3, 0xA9, 0xE2, 0x82, 0xAC, 0x1B, 0x45, 0x00, 0x0A]"
  using control_bytes_survive_round_trip [of "str_lit ''Hi''"]
    control_bytes_survive_round_trip [of "[0xE9, 0x20AC]"]
  by (simp add: str_lit_def bold_def large_def line_bytes_def encode_cp_def bold_on_def
      bold_off_def large_on_def large_off_def)

section \<open>The configuration store\<close>

lemma load_printer_config_prints: "\<exists>ms. snd (load_printer_config f) = map Print ms"
proof (cases f)
  case Absent
  then have "snd (load_printer_config f) = map Print []" by (simp add: load_printer_config_def)
  then show ?thesis by blast
next
  case Unreadable
  then have "snd (load_printer_config f) = map Print [Error_loading_printer_config]"
    by (simp add: load_printer_config_def)
  then show ?thesis by blast
next
  case (Holds data)
  then have "snd (load_printer_config f) = map Print []
      \<or> snd (load_printer_config f) = map Print [Error_loading_printer_config]"
    by (simp add: load_printer_config_def split: option.splits)
  then show ?thesis by blast
qed

lemma load_printer_type_prints: "\<exists>ms. snd (load_printer_type f) = map Print ms"
proof (cases f)
  case Absent
  then have "snd (load_printer_type f) = map Print []" by (simp add: load_printer_type_def)
  then show ?thesis by blast
next
  case Unreadable
  then have "snd (load_printer_type f) = map Print [Error_loading_printer_type]"
    by (simp add: load_printer_type_def)
  then show ?thesis by blast
next
  case (Holds data)
  then have "snd (load_printer_type f) = map Print []
      \<or> snd (load_printer_type f) = map Print [Error_loading_printer_type]"
    by (simp add: load_printer_type_def split: option.splits)
  then show ?thesis by blast
qed



section \<open>print_receipt\<close>

lemma print_receipt_unconfigured:
  "\<not> truthy (fst (load_printer_config (device_file w))) \<Longrightarrow>
   print_receipt w ls logo bz =
     (False, snd (load_printer_config (device_file w)) @ snd (load_printer_type (type_file w))
             @ [Print No_printer_configured])"
  by (cases "load_printer_config (device_file w)"; cases "load_printer_type (type_file w)")
    (simp add: print_receipt_def split: prod.splits)

lemma print_receipt_serial:
  "truthy (fst (load_printer_config (device_file w))) \<Longrightarrow>
   fst (load_printer_type (type_file w)) = JStr (str_lit ''serial'') \<Longrightarrow>
   print_receipt w ls logo bz =
     (fst (print_to_serial w (fst (load_printer_config (device_file w))) ls logo bz),
      snd (load_printer_config (device_file w)) @ snd (load_printer_type (type_file w))
      @ snd (print_to_serial w (fst (load_printer_config (device_file w))) ls logo bz))"
  by (cases "load_printer_config (device_file w)"; cases "load_printer_type (type_file w)")
    (simp add: print_receipt_def split: prod.splits)

lemma print_receipt_usb:
  "truthy (fst (load_printer_config (device_file w))) \<Longrightarrow>
   fst (load_printer_type (type_file w)) \<noteq> JStr (str_lit ''serial'') \<Longrightarrow>
   print_receipt w ls logo bz =
     (fst (print_to_usb w (fst (load_printer_config (device_file w))) ls logo bz),
      snd (load_printer_config (device_file w)) @ snd (load_printer_type (type_file w))
      @ snd (print_to_usb w (fst (load_printer_config (device_file w))) ls logo bz))"
  by (cases "load_printer_config (device_file w)"; cases "load_printer_type (type_file w)")
    (simp add: print_receipt_def split: prod.splits)

text \<open>
  C2. Whatever the lines, the logo and the buzzer flag: when \<open>load_printer_config\<close>
  yields \<open>None\<close>, \<open>print_receipt\<close> returns False and all it does is print to the console.
  Nothing is written, and no device is enumerated, configured or opened.
\<close>

theorem unconfigured_print_fails_without_io:
  assumes "fst (load_printer_config (device_file w)) = JNull"
  shows "\<exists>ms. print_receipt w receipt_lines logo_url is_buzzer = (False, map Print ms)
           \<and> written (map Print ms) = []"
proof -
  obtain ms1 where m1: "snd (load_printer_config (device_file w)) = map Print ms1"
    using load_printer_config_prints by blast
  obtain ms2 where m2: "snd (load_printer_type (type_file w)) = map Print ms2"
    using load_printer_type_prints by blast
  from assms have "\<not> truthy (fst (load_printer_config (device_file w)))" by simp
  from print_receipt_unconfigured [OF this] m1 m2
  have "print_receipt w receipt_lines logo_url is_buzzer
        = (False, map Print (ms1 @ ms2 @ [No_printer_configured]))"
    by simp
  then show ?thesis using written_map_Print by blast
qed

theorem unconfigured_print_fails_without_io_witness:
  "fst (load_printer_config (device_file (usb_world\<lparr>device_file := Absent\<rparr>))) = JNull \<and>
   print_receipt (usb_world\<lparr>device_file := Absent\<rparr>) [str_lit ''Hi''] None True
     = (False, [Print No_printer_configured])"
  using unconfigured_print_fails_without_io
    [of "usb_world\<lparr>device_file := Absent\<rparr>" "[str_lit ''Hi'']" None True]
  by (simp add: usb_world_def load_printer_config_def load_printer_type_def print_receipt_def)


section \<open>The steps of a print\<close>

lemma run_append_True:
  "run (xs @ ys) tr = (True, tr'') \<longleftrightarrow> (\<exists>tr'. run xs tr = (True, tr') \<and> run ys tr' = (True, tr''))"
  by (induction xs arbitrary: tr) (auto split: prod.splits bool.splits)

lemma run_Cons_True:
  "run (a # rest) tr = (True, tr'') \<longleftrightarrow> (\<exists>tr'. a tr = (True, tr') \<and> run rest tr' = (True, tr''))"
  by (auto split: prod.splits bool.splits)

lemma dev_write_True: "dev_write w bs tr = (True, tr') \<Longrightarrow> tr' = tr @ [Write bs]"
  by (auto simp: dev_write_def)

lemma write_line_True:
  "write_line w l tr = (True, tr') \<Longrightarrow> \<exists>bs. line_bytes l = Some bs \<and> tr' = tr @ [Write bs]"
  by (auto simp: write_line_def dev_write_def split: option.splits)

lemma run_write_lines:
  "run (map (write_line w) ls) tr = (True, tr') \<Longrightarrow>
     \<exists>bss. map line_bytes ls = map Some bss \<and> tr' = tr @ map Write bss"
proof (induction ls arbitrary: tr)
  case Nil
  then show ?case by simp
next
  case (Cons l ls)
  from Cons.prems obtain tr1 where
    first: "write_line w l tr = (True, tr1)" and
    rest: "run (map (write_line w) ls) tr1 = (True, tr')"
    unfolding list.map run_Cons_True by blast
  from write_line_True [OF first] obtain bs where
    enc: "line_bytes l = Some bs" and tr1: "tr1 = tr @ [Write bs]"
    by blast
  from Cons.IH [OF rest] obtain bss where
    "map line_bytes ls = map Some bss" "tr' = tr1 @ map Write bss"
    by blast
  with enc tr1
  have "map line_bytes (l # ls) = map Some (bs # bss) \<and> tr' = tr @ map Write (bs # bss)"
    by simp
  then show ?case by blast
qed

lemma run_replicate_write:
  "run (replicate n (dev_write w bs)) tr = (True, tr') \<Longrightarrow> tr' = tr @ replicate n (Write bs)"
proof (induction n arbitrary: tr)
  case 0
  then show ?case by simp
next
  case (Suc n)
  from Suc.prems obtain tr1 where
    first: "dev_write w bs tr = (True, tr1)" and
    rest: "run (replicate n (dev_write w bs)) tr1 = (True, tr')"
    unfolding replicate_Suc run_Cons_True by blast
  from dev_write_True [OF first] Suc.IH [OF rest] show ?case
    by (simp add: replicate_append_same)
qed

lemma run_buzzer:
  "run (if bz then [dev_write w buzzer] else []) tr = (True, tr') \<Longrightarrow>
   tr' = tr @ (if bz then [Write buzzer] else [])"
  by (cases bz) (auto simp: run_Cons_True simp del: run.simps(2) dest: dev_write_True)

lemma print_logo_True: "print_logo w logo tr = (True, tr @ snd (print_logo w logo []))"
  by (simp add: print_logo_def split: option.splits)

lemma written_image: "written (snd (print_image_from_url w url)) = []"
  by (simp add: print_image_from_url_def split: http_result.splits)

lemma written_logo: "written (snd (print_logo w logo [])) = []"
  by (simp add: print_logo_def written_image split: option.splits)

text \<open>The steps both transports share, up to the release that ends them.\<close>

lemma run_body_True:
  assumes "run ([print_logo w logo] @ map (write_line w) ls @ replicate 5 (dev_write w line_feed)
                @ [dev_write w cut, dev_write w line_feed]
                @ (if bz then [dev_write w buzzer] else []) @ [fin]) tr = (True, tr')"
  shows "\<exists>bss. map line_bytes ls = map Some bss \<and>
           fin (tr @ snd (print_logo w logo []) @ map Write bss @ replicate 5 (Write line_feed)
                @ [Write cut, Write line_feed] @ (if bz then [Write buzzer] else []))
           = (True, tr')"
proof -
  from assms obtain t1 t2 t3 t4 t5 where
    s1: "run [print_logo w logo] tr = (True, t1)" and
    s2: "run (map (write_line w) ls) t1 = (True, t2)" and
    s3: "run (replicate 5 (dev_write w line_feed)) t2 = (True, t3)" and
    s4: "run [dev_write w cut, dev_write w line_feed] t3 = (True, t4)" and
    s5: "run (if bz then [dev_write w buzzer] else []) t4 = (True, t5)" and
    s6: "run [fin] t5 = (True, tr')"
    unfolding run_append_True by blast
  from s1 have t1: "t1 = tr @ snd (print_logo w logo [])"
    using print_logo_True [of w logo tr] by (simp add: run_Cons_True del: run.simps(2))
  from run_write_lines [OF s2] obtain bss where
    enc: "map line_bytes ls = map Some bss" and t2: "t2 = t1 @ map Write bss"
    by blast
  from run_replicate_write [OF s3] have t3: "t3 = t2 @ replicate 5 (Write line_feed)" .
  from s4 have t4: "t4 = t3 @ [Write cut, Write line_feed]"
    by (auto simp: run_Cons_True simp del: run.simps(2) dest!: dev_write_True)
  from run_buzzer [OF s5] have t5: "t5 = t4 @ (if bz then [Write buzzer] else [])" .
  from s6 have "fin t5 = (True, tr')" by (simp add: run_Cons_True del: run.simps(2))
  with enc t1 t2 t3 t4 t5 show ?thesis by auto
qed

lemma written_enumerate: "written (snd (get_usb_devices w)) = []"
  by (simp add: get_usb_devices_def split: option.splits prod.splits)

lemma written_find_device: "written (snd (find_device w s infos)) = []"
  by (induction infos) (auto split: option.splits)

lemma written_resolve_device: "written (snd (resolve_device w d)) = []"
  by (cases d)
    (simp_all add: resolve_device_def written_append written_enumerate written_find_device
      split: prod.splits,
     metis written_enumerate written_find_device snd_conv)


section \<open>What a successful print has written\<close>

lemma print_to_usb_True:
  assumes "print_to_usb w d ls logo bz = (True, tr)"
  shows "\<exists>bss. map line_bytes ls = map Some bss \<and>
           written tr = bss @ replicate 5 line_feed @ [cut, line_feed]
                        @ (if bz then [buzzer] else [])"
proof -
  from assms obtain dev ev where
    res: "resolve_device w d = (Some (Usb dev), ev)" and
    run: "run (usb_steps w ls logo bz) (ev @ [Set_configuration]) = (True, tr)"
    by (auto simp: print_to_usb_def split: if_splits prod.splits option.splits device.splits bool.splits)
  from res have wev: "written ev = []"
    using written_resolve_device [of w d] by simp
  from run_body_True [OF run [unfolded usb_steps_def]] obtain bss where
    enc: "map line_bytes ls = map Some bss" and
    fin: "dispose_resources w ((ev @ [Set_configuration]) @ snd (print_logo w logo []) @ map Write bss
            @ replicate 5 (Write line_feed) @ [Write cut, Write line_feed]
            @ (if bz then [Write buzzer] else [])) = (True, tr)"
    by blast
  from fin have "written tr = bss @ replicate 5 line_feed @ [cut, line_feed]
                        @ (if bz then [buzzer] else [])"
    by (auto simp: dispose_resources_def written_append wev written_logo written_map_Write
        written_replicate_Write)
  with enc show ?thesis by blast
qed

lemma print_to_serial_True:
  assumes "print_to_serial w d ls logo bz = (True, tr)"
  shows "\<exists>bss. map line_bytes ls = map Some bss \<and>
           written tr = bss @ replicate 5 line_feed @ [cut, line_feed]
                        @ (if bz then [buzzer] else [])"
proof -
  from assms have
    run: "run (serial_steps w ls logo bz) [Serial_open d] = (True, tr)"
    by (auto simp: print_to_serial_def split: if_splits prod.splits bool.splits)
  from run_body_True [OF run [unfolded serial_steps_def]] obtain bss where
    enc: "map line_bytes ls = map Some bss" and
    fin: "serial_close w ([Serial_open d] @ snd (print_logo w logo []) @ map Write bss
            @ replicate 5 (Write line_feed) @ [Write cut, Write line_feed]
            @ (if bz then [Write buzzer] else [])) = (True, tr)"
    by blast
  from fin have "written tr = bss @ replicate 5 line_feed @ [cut, line_feed]
                        @ (if bz then [buzzer] else [])"
    by (auto simp: serial_close_def written_append written_logo written_map_Write
        written_replicate_Write)
  with enc show ?thesis by blast
qed

lemma written_loads:
  "written (snd (load_printer_config f)) = []" "written (snd (load_printer_type g)) = []"
  using load_printer_config_prints [of f] load_printer_type_prints [of g]
  by (auto simp: written_map_Print)

lemma print_receipt_True:
  assumes "print_receipt w ls logo bz = (True, tr)"
  shows "\<exists>bss. map line_bytes ls = map Some bss \<and>
           written tr = bss @ replicate 5 line_feed @ [cut, line_feed]
                        @ (if bz then [buzzer] else [])"
proof -
  let ?cfg = "fst (load_printer_config (device_file w))"
  let ?ev = "snd (load_printer_config (device_file w)) @ snd (load_printer_type (type_file w))"
  have cfg: "truthy ?cfg"
    using assms print_receipt_unconfigured [of w ls logo bz] by auto
  show ?thesis
  proof (cases "fst (load_printer_type (type_file w)) = JStr (str_lit ''serial'')")
    case True
    from print_receipt_serial [OF cfg True, of ls logo bz] assms
    obtain tr0 where p: "print_to_serial w ?cfg ls logo bz = (True, tr0)" and tr: "tr = ?ev @ tr0"
      by (cases "print_to_serial w ?cfg ls logo bz") auto
    from print_to_serial_True [OF p] tr show ?thesis
      by (simp add: written_append written_loads)
  next
    case False
    from print_receipt_usb [OF cfg False, of ls logo bz] assms
    obtain tr0 where p: "print_to_usb w ?cfg ls logo bz = (True, tr0)" and tr: "tr = ?ev @ tr0"
      by (cases "print_to_usb w ?cfg ls logo bz") auto
    from print_to_usb_True [OF p] tr show ?thesis
      by (simp add: written_append written_loads)
  qed
qed


section \<open>Receipts on the example machines\<close>

lemmas world_eval =
  print_receipt_def load_printer_config_def load_printer_type_def dict_get_def str_lit_def
  print_to_serial_def serial_port_opens_def serial_steps_def print_to_usb_def usb_steps_def
  resolve_device_def starts_with_digit_def get_usb_devices_def describe_def format_03d_def
  print_logo_def print_image_from_url_def write_line_def line_bytes_def dev_write_def
  serial_close_def dispose_resources_def encode_cp_def line_feed_def cut_def buzzer_def
  replicate_numeral serial_world_def usb_world_def acme_printer_def

text \<open>
  C3. Whenever a print succeeds, over USB or over the serial port, directly or through
  \<open>print_receipt\<close>, the calls of \<open>write\<close> are exactly: one per text line (the line's
  UTF-8 bytes and a newline), then five times the line feed, the cut command, one more
  line feed, and last the buzzer command if and only if the buzzer flag is set.
\<close>

theorem trailer_after_last_line:
  assumes "print_to_usb w d ls logo bz = (True, tr)
           \<or> print_to_serial w d ls logo bz = (True, tr)
           \<or> print_receipt w ls logo bz = (True, tr)"
  shows "\<exists>bss. map line_bytes ls = map Some bss \<and>
           written tr = bss @ replicate 5 line_feed @ [cut, line_feed]
                        @ (if bz then [buzzer] else [])"
  using assms print_to_usb_True print_to_serial_True print_receipt_True by blast

theorem trailer_after_last_line_witness:
  "print_receipt serial_world [str_lit ''Hi''] None True =
     (True, [Serial_open (JStr (str_lit ''/dev/ttyUSB0'')),
             Write [0x48, 0x69, 0x0A],
             Write [0x0A], Write [0x0A], Write [0x0A], Write [0x0A], Write [0x0A],
             Write [0x1D, 0x56, 0x00], Write [0x0A], Write [0x1B, 0x42, 0x05, 0x07],
             Serial_close]) \<and>
   print_receipt usb_world [str_lit ''Hi''] None False =
     (True, [Usb_find, Usb_find, Set_configuration,
             Write [0x48, 0x69, 0x0A],
             Write [0x0A], Write [0x0A], Write [0x0A], Write [0x0A], Write [0x0A],
             Write [0x1D, 0x56, 0x00], Write [0x0A],
             Dispose_resources]) \<and>
   (\<exists>bss. map line_bytes [str_lit ''Hi''] = map Some bss \<and>
      [[0x48, 0x69, 0x0A], [0x0A], [0x0A], [0x0A], [0x0A], [0x0A], [0x1D, 0x56, 0x00], [0x0A],
       [0x1B, 0x42, 0x05, 0x07]]
      = bss @ replicate 5 line_feed @ [cut, line_feed] @ [buzzer])"
proof -
  have serial: "print_receipt serial_world [str_lit ''Hi''] None True =
     (True, [Serial_open (JStr (str_lit ''/dev/ttyUSB0'')),
             Write [0x48, 0x69, 0x0A],
             Write [0x0A], Write [0x0A], Write [0x0A], Write [0x0A], Write [0x0A],
             Write [0x1D, 0x56, 0x00], Write [0x0A], Write [0x1B, 0x42, 0x05, 0x07],
             Serial_close])"
    by (simp add: world_eval)
  have usb: "print_receipt usb_world [str_lit ''Hi''] None False =
     (True, [Usb_find, Usb_find, Set_configuration,
             Write [0x48, 0x69, 0x0A],
             Write [0x0A], Write [0x0A], Write [0x0A], Write [0x0A], Write [0x0A],
             Write [0x1D, 0x56, 0x00], Write [0x0A],
             Dispose_resources])"
    by (simp add: world_eval)
  from trailer_after_last_line [OF disjI2 [OF disjI2 [OF serial]]] serial usb
  show ?thesis by simp
qed

text \<open>
  C1. The release of the transport is the last statement of the \<open>try\<close> block, so a
  step that raises after the transport was resolved skips it. Three prints that fail
  after the port was opened or the OUT endpoint found: the second write raises (serial
  and USB), and a line holds a lone surrogate (its encoding raises). None of the three
  traces has \<open>Serial_close\<close> or \<open>Dispose_resources\<close>.
\<close>

theorem failed_write_skips_release:
  "print_receipt (serial_world\<lparr>write_ok := \<lambda>n bs. n < 1\<rparr>) [str_lit ''Hi''] None True =
     (False, [Serial_open (JStr (str_lit ''/dev/ttyUSB0'')),
              Write [0x48, 0x69, 0x0A], Write [0x0A],
              Print Serial_printing_error]) \<and>
   print_receipt (usb_world\<lparr>write_ok := \<lambda>n bs. n < 1\<rparr>) [str_lit ''Hi''] None True =
     (False, [Usb_find, Usb_find, Set_configuration,
              Write [0x48, 0x69, 0x0A], Write [0x0A],
              Print Usb_printing_error]) \<and>
   print_receipt serial_world [[0xD800]] None True =
     (False, [Serial_open (JStr (str_lit ''/dev/ttyUSB0'')), Print Serial_printing_error])"
  by (simp add: world_eval)


section \<open>The choice of the transport\<close>

text \<open>A step list whose steps each only add events of a set \<open>A\<close> only adds such events.\<close>

lemma run_adds:
  assumes "\<forall>s\<in>set steps. \<forall>tr. \<exists>ext. snd (s tr) = tr @ ext \<and> set ext \<subseteq> A"
  shows "\<exists>ext. snd (run steps tr) = tr @ ext \<and> set ext \<subseteq> A"
  using assms
proof (induction steps arbitrary: tr)
  case Nil
  then show ?case by simp
next
  case (Cons a steps)
  from Cons.prems obtain e1 where a: "snd (a tr) = tr @ e1" and e1: "set e1 \<subseteq> A"
    by (meson list.set_intros(1))
  show ?case
  proof (cases "fst (a tr)")
    case False
    with a have "snd (run (a # steps) tr) = tr @ e1"
      by (cases "a tr") simp
    with e1 show ?thesis by blast
  next
    case True
    from Cons.prems have "\<forall>s\<in>set steps. \<forall>tr. \<exists>ext. snd (s tr) = tr @ ext \<and> set ext \<subseteq> A"
      by simp
    from Cons.IH [OF this, of "tr @ e1"] obtain e2 where
      r: "snd (run steps (tr @ e1)) = (tr @ e1) @ e2" and e2: "set e2 \<subseteq> A"
      by blast
    from True a r have "snd (run (a # steps) tr) = tr @ (e1 @ e2)"
      by (cases "a tr") simp
    moreover from e1 e2 have "set (e1 @ e2) \<subseteq> A" by simp
    ultimately show ?thesis by blast
  qed
qed

lemma image_events_usb: "set (snd (print_image_from_url w url)) \<subseteq> usb_events"
  by (simp add: print_image_from_url_def usb_events_def split: http_result.splits)

lemma usb_step_adds:
  "\<exists>ext. snd (print_logo w logo tr) = tr @ ext \<and> set ext \<subseteq> usb_events"
  "\<exists>ext. snd (dev_write w bs tr) = tr @ ext \<and> set ext \<subseteq> usb_events"
  "\<exists>ext. snd (write_line w l tr) = tr @ ext \<and> set ext \<subseteq> usb_events"
  "\<exists>ext. snd (dispose_resources w tr) = tr @ ext \<and> set ext \<subseteq> usb_events"
proof -
  show "\<exists>ext. snd (print_logo w logo tr) = tr @ ext \<and> set ext \<subseteq> usb_events"
    using image_events_usb by (cases logo) (auto simp: print_logo_def usb_events_def)
  show "\<exists>ext. snd (dev_write w bs tr) = tr @ ext \<and> set ext \<subseteq> usb_events"
    by (simp add: dev_write_def usb_events_def)
  show "\<exists>ext. snd (write_line w l tr) = tr @ ext \<and> set ext \<subseteq> usb_events"
    by (cases "line_bytes l") (simp_all add: write_line_def dev_write_def usb_events_def)
  show "\<exists>ext. snd (dispose_resources w tr) = tr @ ext \<and> set ext \<subseteq> usb_events"
    by (simp add: dispose_resources_def usb_events_def)
qed

lemma usb_steps_add:
  "\<exists>ext. snd (run (usb_steps w ls logo bz) tr) = tr @ ext \<and> set ext \<subseteq> usb_events"
proof (rule run_adds)
  show "\<forall>s\<in>set (usb_steps w ls logo bz). \<forall>tr. \<exists>ext. snd (s tr) = tr @ ext \<and> set ext \<subseteq> usb_events"
    using usb_step_adds by (auto simp: usb_steps_def)
qed

lemma resolve_events_usb: "set (snd (resolve_device w d)) \<subseteq> usb_events"
proof -
  have g: "set (snd (get_usb_devices w)) \<subseteq> usb_events"
    by (simp add: get_usb_devices_def usb_events_def split: option.splits prod.splits)
  have f: "set (snd (find_device w s infos)) \<subseteq> usb_events" for s infos
    by (induction infos) (auto simp: usb_events_def split: option.splits)
  show ?thesis
  proof (cases d)
    case (JStr s)
    then show ?thesis
      using g f [of s "fst (get_usb_devices w)"]
      by (cases "get_usb_devices w"; cases "find_device w s (fst (get_usb_devices w))")
        (auto simp: resolve_device_def)
  qed (simp_all add: resolve_device_def)
qed

lemma print_to_usb_events: "set (snd (print_to_usb w d ls logo bz)) \<subseteq> usb_events"
proof -
  obtain dv ev where res: "resolve_device w d = (dv, ev)" by (cases "resolve_device w d")
  with resolve_events_usb [of w d] have ev: "set ev \<subseteq> usb_events" by simp
  have sc: "Set_configuration \<in> usb_events" "Print m \<in> usb_events" for m
    by (simp_all add: usb_events_def)
  obtain ext where
    ext: "snd (run (usb_steps w ls logo bz) (ev @ [Set_configuration]))
          = (ev @ [Set_configuration]) @ ext" "set ext \<subseteq> usb_events"
    using usb_steps_add by blast
  show ?thesis
    using res ev sc ext
    by (cases "run (usb_steps w ls logo bz) (ev @ [Set_configuration])")
      (auto simp: print_to_usb_def split: option.splits device.splits bool.splits)
qed

text \<open>
  C10. With a device configured, every transport kind that \<open>load_printer_type\<close> yields
  other than the string \<open>"serial"\<close> - \<open>"usb"\<close>, another string, a value that is no
  string - sends the print down the USB path: the result and the effects of
  \<open>print_receipt\<close> are those of \<open>_print_to_usb\<close> after the two loads, no serial port
  is opened or closed, and the kind is never rejected.
\<close>

theorem unknown_kind_prints_over_usb:
  assumes "truthy (fst (load_printer_config (device_file w)))"
    and "fst (load_printer_type (type_file w)) \<noteq> JStr (str_lit ''serial'')"
  shows "print_receipt w receipt_lines logo_url is_buzzer =
           (fst (print_to_usb w (fst (load_printer_config (device_file w)))
                   receipt_lines logo_url is_buzzer),
            snd (load_printer_config (device_file w)) @ snd (load_printer_type (type_file w))
            @ snd (print_to_usb w (fst (load_printer_config (device_file w)))
                     receipt_lines logo_url is_buzzer))
         \<and> Serial_close \<notin> set (snd (print_receipt w receipt_lines logo_url is_buzzer))
         \<and> (\<nexists>p. Serial_open p \<in> set (snd (print_receipt w receipt_lines logo_url is_buzzer)))"
proof -
  let ?cfg = "fst (load_printer_config (device_file w))"
  note eq = print_receipt_usb [OF assms, of receipt_lines logo_url is_buzzer]
  obtain ms1 where m1: "snd (load_printer_config (device_file w)) = map Print ms1"
    using load_printer_config_prints by blast
  obtain ms2 where m2: "snd (load_printer_type (type_file w)) = map Print ms2"
    using load_printer_type_prints by blast
  have "set (snd (print_receipt w receipt_lines logo_url is_buzzer)) \<subseteq> usb_events"
    using print_to_usb_events [of w ?cfg receipt_lines logo_url is_buzzer]
    by (auto simp: eq m1 m2 usb_events_def)
  then show ?thesis
    using eq by (auto simp: usb_events_def)
qed


theorem unknown_kind_prints_over_usb_witness:
  "truthy (fst (load_printer_config (device_file
      (usb_world\<lparr>type_file := Holds (JObj [(str_lit ''type_printer'', JStr (str_lit ''Serial''))])\<rparr>)))) \<and>
   fst (load_printer_type (type_file
      (usb_world\<lparr>type_file := Holds (JObj [(str_lit ''type_printer'', JStr (str_lit ''Serial''))])\<rparr>)))
     = JStr (str_lit ''Serial'') \<and>
   JStr (str_lit ''Serial'') \<noteq> JStr (str_lit ''serial'') \<and>
   print_receipt
      (usb_world\<lparr>type_file := Holds (JObj [(str_lit ''type_printer'', JStr (str_lit ''Serial''))])\<rparr>)
      [str_lit ''Hi''] None False =
     (True, [Usb_find, Usb_find, Set_configuration,
             Write [0x48, 0x69, 0x0A],
             Write [0x0A], Write [0x0A], Write [0x0A], Write [0x0A], Write [0x0A],
             Write [0x1D, 0x56, 0x00], Write [0x0A],
             Dispose_resources])"
  using unknown_kind_prints_over_usb
    [of "usb_world\<lparr>type_file := Holds (JObj [(str_lit ''type_printer'', JStr (str_lit ''Serial''))])\<rparr>"
        "[str_lit ''Hi'']" None False]
  by (simp add: world_eval)


section \<open>A logo that cannot be printed\<close>

lemma blind_toD:
  "blind_to ev s \<Longrightarrow>
   \<exists>b ext. s (pre @ post) = (b, pre @ post @ ext) \<and> s (pre @ ev @ post) = (b, pre @ ev @ post @ ext)"
  unfolding blind_to_def by blast

lemma run_blind:
  assumes "\<forall>s\<in>set steps. blind_to ev s"
  shows "blind_to ev (run steps)"
  using assms
proof (induction steps)
  case Nil
  show ?case unfolding blind_to_def by auto
next
  case (Cons a steps)
  then have a: "blind_to ev a" and r: "blind_to ev (run steps)" by simp_all
  show ?case
    unfolding blind_to_def
  proof (intro allI)
    fix pre post
    from blind_toD [OF a, of pre post] obtain b e1 where
      a1: "a (pre @ post) = (b, pre @ post @ e1)" and
      a2: "a (pre @ ev @ post) = (b, pre @ ev @ post @ e1)"
      by blast
    show "\<exists>b ext. run (a # steps) (pre @ post) = (b, pre @ post @ ext)
                 \<and> run (a # steps) (pre @ ev @ post) = (b, pre @ ev @ post @ ext)"
    proof (cases b)
      case False
      with a1 a2 show ?thesis by auto
    next
      case True
      from blind_toD [OF r, of pre "post @ e1"] obtain b' e2 where
        "run steps (pre @ post @ e1) = (b', pre @ (post @ e1) @ e2)"
        "run steps (pre @ ev @ post @ e1) = (b', pre @ ev @ (post @ e1) @ e2)"
        by auto
      with True a1 a2 have
        "run (a # steps) (pre @ post) = (b', pre @ post @ (e1 @ e2))
         \<and> run (a # steps) (pre @ ev @ post) = (b', pre @ ev @ post @ (e1 @ e2))"
        by simp
      then show ?thesis by blast
    qed
  qed
qed

lemma blind_steps:
  assumes "written ev = []"
  shows "blind_to ev (dev_write w bs)" "blind_to ev (write_line w l)"
    "blind_to ev (dispose_resources w)" "blind_to ev (serial_close w)"
  using assms
  by (auto simp: blind_to_def dev_write_def write_line_def dispose_resources_def
      serial_close_def written_append split: option.splits)

text \<open>The steps after the logo, and the two step lists in terms of them.\<close>

lemma usb_steps_Cons:
  "usb_steps w ls logo bz = print_logo w logo # tl (usb_steps w ls None bz)"
  by (simp add: usb_steps_def)

lemma serial_steps_Cons:
  "serial_steps w ls logo bz = print_logo w logo # tl (serial_steps w ls None bz)"
  by (simp add: serial_steps_def)

lemma blind_usb_tail:
  "written ev = [] \<Longrightarrow> blind_to ev (run (tl (usb_steps w ls None bz)))"
  by (rule run_blind) (auto simp: usb_steps_def blind_steps)

lemma blind_serial_tail:
  "written ev = [] \<Longrightarrow> blind_to ev (run (tl (serial_steps w ls None bz)))"
  by (rule run_blind) (auto simp: serial_steps_def blind_steps)

lemma run_logo_Cons:
  "run (print_logo w logo # rest) tr = run rest (tr @ snd (print_logo w logo []))"
  using print_logo_True [of w logo tr] by simp

lemma usb_run_logo:
  assumes "url \<noteq> []"
  shows "\<exists>b ext. run (usb_steps w ls None bz) tr = (b, tr @ ext)
           \<and> run (usb_steps w ls (Some url) bz) tr
               = (b, tr @ snd (print_image_from_url w url) @ ext)"
proof -
  let ?ev = "snd (print_image_from_url w url)"
  from blind_toD [OF blind_usb_tail [OF written_image [of w url], of w ls bz], where pre = tr and post = "[]"]
  obtain b ext where
    "run (tl (usb_steps w ls None bz)) tr = (b, tr @ ext)"
    "run (tl (usb_steps w ls None bz)) (tr @ ?ev) = (b, tr @ ?ev @ ext)"
    by auto
  moreover have "run (usb_steps w ls None bz) tr = run (tl (usb_steps w ls None bz)) tr"
    by (subst usb_steps_Cons) (simp add: run_logo_Cons print_logo_def del: run.simps)
  moreover have "run (usb_steps w ls (Some url) bz) tr
                 = run (tl (usb_steps w ls None bz)) (tr @ ?ev)"
    using assms by (subst usb_steps_Cons) (simp add: run_logo_Cons print_logo_def del: run.simps)
  ultimately show ?thesis by auto
qed

lemma serial_run_logo:
  assumes "url \<noteq> []"
  shows "\<exists>b ext. run (serial_steps w ls None bz) tr = (b, tr @ ext)
           \<and> run (serial_steps w ls (Some url) bz) tr
               = (b, tr @ snd (print_image_from_url w url) @ ext)"
proof -
  let ?ev = "snd (print_image_from_url w url)"
  from blind_toD [OF blind_serial_tail [OF written_image [of w url], of w ls bz], where pre = tr and post = "[]"]
  obtain b ext where
    "run (tl (serial_steps w ls None bz)) tr = (b, tr @ ext)"
    "run (tl (serial_steps w ls None bz)) (tr @ ?ev) = (b, tr @ ?ev @ ext)"
    by auto
  moreover have "run (serial_steps w ls None bz) tr = run (tl (serial_steps w ls None bz)) tr"
    by (subst serial_steps_Cons) (simp add: run_logo_Cons print_logo_def del: run.simps)
  moreover have "run (serial_steps w ls (Some url) bz) tr
                 = run (tl (serial_steps w ls None bz)) (tr @ ?ev)"
    using assms by (subst serial_steps_Cons) (simp add: run_logo_Cons print_logo_def del: run.simps)
  ultimately show ?thesis by auto
qed

text \<open>
  A print with a logo and the same print without one: the same result, and the same
  events but for the events of the logo step where the print gets that far.
\<close>

lemma print_to_usb_logo:
  assumes "url \<noteq> []"
  shows "\<exists>b pre post. print_to_usb w d ls None bz = (b, pre @ post)
           \<and> (print_to_usb w d ls (Some url) bz = (b, pre @ snd (print_image_from_url w url) @ post)
              \<or> print_to_usb w d ls (Some url) bz = (b, pre @ post))"
proof -
  let ?ev = "snd (print_image_from_url w url)"
  obtain dv ev where res: "resolve_device w d = (dv, ev)" by (cases "resolve_device w d")
  from usb_run_logo [OF assms, of w ls bz "ev @ [Set_configuration]"] obtain b ext where
    r1: "run (usb_steps w ls None bz) (ev @ [Set_configuration])
         = (b, (ev @ [Set_configuration]) @ ext)" and
    r2: "run (usb_steps w ls (Some url) bz) (ev @ [Set_configuration])
         = (b, (ev @ [Set_configuration]) @ ?ev @ ext)"
    by blast
  show ?thesis
  proof (cases "usb_available w \<and> (\<exists>dev. dv = Some (Usb dev) \<and> configurable dev
                  \<and> Dir_out \<in> set (endpoints dev))")
    case False
    with res have "print_to_usb w d ls (Some url) bz = print_to_usb w d ls None bz"
      by (auto simp: print_to_usb_def split: option.splits device.splits)
    then have "print_to_usb w d ls None bz
               = (fst (print_to_usb w d ls None bz), snd (print_to_usb w d ls None bz) @ [])
             \<and> print_to_usb w d ls (Some url) bz
               = (fst (print_to_usb w d ls None bz), snd (print_to_usb w d ls None bz) @ [])"
      by simp
    then show ?thesis by blast
  next
    case True
    with res r1 r2 have
      "print_to_usb w d ls None bz
       = (b, (ev @ [Set_configuration]) @ (ext @ (if b then [] else [Print Usb_printing_error])))
       \<and> print_to_usb w d ls (Some url) bz
       = (b, (ev @ [Set_configuration]) @ ?ev @ (ext @ (if b then [] else [Print Usb_printing_error])))"
      by (auto simp: print_to_usb_def)
    then show ?thesis by blast
  qed
qed

lemma print_to_serial_logo:
  assumes "url \<noteq> []"
  shows "\<exists>b pre post. print_to_serial w d ls None bz = (b, pre @ post)
           \<and> (print_to_serial w d ls (Some url) bz = (b, pre @ snd (print_image_from_url w url) @ post)
              \<or> print_to_serial w d ls (Some url) bz = (b, pre @ post))"
proof -
  let ?ev = "snd (print_image_from_url w url)"
  from serial_run_logo [OF assms, of w ls bz "[Serial_open d]"] obtain b ext where
    r1: "run (serial_steps w ls None bz) [Serial_open d] = (b, [Serial_open d] @ ext)" and
    r2: "run (serial_steps w ls (Some url) bz) [Serial_open d] = (b, [Serial_open d] @ ?ev @ ext)"
    by blast
  show ?thesis
  proof (cases "serial_available w \<and> serial_port_opens w d")
    case False
    then have "print_to_serial w d ls (Some url) bz = print_to_serial w d ls None bz"
      by (auto simp: print_to_serial_def)
    then have "print_to_serial w d ls None bz
               = (fst (print_to_serial w d ls None bz), snd (print_to_serial w d ls None bz) @ [])
             \<and> print_to_serial w d ls (Some url) bz
               = (fst (print_to_serial w d ls None bz), snd (print_to_serial w d ls None bz) @ [])"
      by simp
    then show ?thesis by blast
  next
    case True
    with r1 r2 have
      "print_to_serial w d ls None bz
       = (b, [Serial_open d] @ (ext @ (if b then [] else [Print Serial_printing_error])))
       \<and> print_to_serial w d ls (Some url) bz
       = (b, [Serial_open d] @ ?ev @ (ext @ (if b then [] else [Print Serial_printing_error])))"
      by (auto simp: print_to_serial_def)
    then show ?thesis by blast
  qed
qed


lemma print_receipt_logo:
  assumes "url \<noteq> []"
  shows "\<exists>b pre post. print_receipt w ls None bz = (b, pre @ post)
           \<and> (print_receipt w ls (Some url) bz = (b, pre @ snd (print_image_from_url w url) @ post)
              \<or> print_receipt w ls (Some url) bz = (b, pre @ post))"
proof -
  let ?cfg = "fst (load_printer_config (device_file w))"
  let ?loads = "snd (load_printer_config (device_file w)) @ snd (load_printer_type (type_file w))"
  let ?ev = "snd (print_image_from_url w url)"
  show ?thesis
  proof (cases "truthy ?cfg")
    case False
    from print_receipt_unconfigured [OF False]
    have "print_receipt w ls None bz = (False, (?loads @ [Print No_printer_configured]) @ [])
          \<and> print_receipt w ls (Some url) bz = (False, (?loads @ [Print No_printer_configured]) @ [])"
      by simp
    then show ?thesis by blast
  next
    case cfg: True
    show ?thesis
    proof (cases "fst (load_printer_type (type_file w)) = JStr (str_lit ''serial'')")
      case True
      from print_to_serial_logo [OF assms, of w ?cfg ls bz] obtain b pre post where
        "print_to_serial w ?cfg ls None bz = (b, pre @ post)"
        "print_to_serial w ?cfg ls (Some url) bz = (b, pre @ ?ev @ post)
         \<or> print_to_serial w ?cfg ls (Some url) bz = (b, pre @ post)"
        by blast
      then have "print_receipt w ls None bz = (b, (?loads @ pre) @ post)
          \<and> (print_receipt w ls (Some url) bz = (b, (?loads @ pre) @ ?ev @ post)
             \<or> print_receipt w ls (Some url) bz = (b, (?loads @ pre) @ post))"
        by (auto simp: print_receipt_serial [OF cfg True])
      then show ?thesis by blast
    next
      case False
      from print_to_usb_logo [OF assms, of w ?cfg ls bz] obtain b pre post where
        "print_to_usb w ?cfg ls None bz = (b, pre @ post)"
        "print_to_usb w ?cfg ls (Some url) bz = (b, pre @ ?ev @ post)
         \<or> print_to_usb w ?cfg ls (Some url) bz = (b, pre @ post)"
        by blast
      then have "print_receipt w ls None bz = (b, (?loads @ pre) @ post)
          \<and> (print_receipt w ls (Some url) bz = (b, (?loads @ pre) @ ?ev @ post)
             \<or> print_receipt w ls (Some url) bz = (b, (?loads @ pre) @ post))"
        by (auto simp: print_receipt_usb [OF cfg False])
      then show ?thesis by blast
    qed
  qed
qed

lemma failed_image_events:
  assumes "\<not> fst (print_image_from_url w url)"
  shows "\<exists>m. m \<noteq> Image_loaded \<and>
           (snd (print_image_from_url w url) = [Print m]
            \<or> snd (print_image_from_url w url) = [Http_get url, Print m])"
  using assms
  by (auto simp: print_image_from_url_def split: http_result.splits if_splits)

text \<open>
  C5. When a logo address is given and \<open>_print_image_from_url\<close> fails (the request
  raises, the status is not 200, the body is no image, or a library is missing), the
  print returns what the same print without a logo returns and writes the same bytes;
  its events are those of the plain print with the events of the logo step put in, and
  these are at most the GET and one console message. So where the plain print succeeds,
  the print with the broken logo succeeds too, having written every line and the whole
  trailer.
\<close>

theorem logo_failure_is_not_fatal:
  assumes "image_url \<noteq> []" and "\<not> fst (print_image_from_url w image_url)"
  shows "fst (print_receipt w receipt_lines (Some image_url) is_buzzer)
           = fst (print_receipt w receipt_lines None is_buzzer)
         \<and> written (snd (print_receipt w receipt_lines (Some image_url) is_buzzer))
           = written (snd (print_receipt w receipt_lines None is_buzzer))
         \<and> (\<exists>pre post. snd (print_receipt w receipt_lines None is_buzzer) = pre @ post
               \<and> (snd (print_receipt w receipt_lines (Some image_url) is_buzzer)
                     = pre @ snd (print_image_from_url w image_url) @ post
                  \<or> snd (print_receipt w receipt_lines (Some image_url) is_buzzer) = pre @ post))
         \<and> (\<exists>m. m \<noteq> Image_loaded \<and>
               (snd (print_image_from_url w image_url) = [Print m]
                \<or> snd (print_image_from_url w image_url) = [Http_get image_url, Print m]))
         \<and> (fst (print_receipt w receipt_lines None is_buzzer) \<longrightarrow>
               fst (print_receipt w receipt_lines (Some image_url) is_buzzer)
               \<and> (\<exists>bss. map line_bytes receipt_lines = map Some bss \<and>
                     written (snd (print_receipt w receipt_lines (Some image_url) is_buzzer))
                       = bss @ replicate 5 line_feed @ [cut, line_feed]
                         @ (if is_buzzer then [buzzer] else [])))"
proof -
  let ?with = "print_receipt w receipt_lines (Some image_url) is_buzzer"
  let ?plain = "print_receipt w receipt_lines None is_buzzer"
  let ?ev = "snd (print_image_from_url w image_url)"
  from print_receipt_logo [OF assms(1), of w receipt_lines is_buzzer] obtain b pre post where
    plain: "?plain = (b, pre @ post)" and
    logo: "?with = (b, pre @ ?ev @ post) \<or> ?with = (b, pre @ post)"
    by blast
  from plain logo have flag: "fst ?with = fst ?plain" by auto
  from plain logo have wr: "written (snd ?with) = written (snd ?plain)"
    by (auto simp: written_append written_image)
  have shape: "\<exists>pre post. snd ?plain = pre @ post
      \<and> (snd ?with = pre @ ?ev @ post \<or> snd ?with = pre @ post)"
  proof (intro exI conjI)
    show "snd ?plain = pre @ post" using plain by simp
    show "snd ?with = pre @ ?ev @ post \<or> snd ?with = pre @ post" using logo by auto
  qed
  have ok: "\<exists>bss. map line_bytes receipt_lines = map Some bss \<and>
              written (snd ?with) = bss @ replicate 5 line_feed @ [cut, line_feed]
                                    @ (if is_buzzer then [buzzer] else [])"
    if "fst ?plain"
  proof -
    from that flag have "?with = (True, snd ?with)" by (cases ?with) simp
    from print_receipt_True [OF this] show ?thesis .
  qed
  from flag wr shape failed_image_events [OF assms(2)] ok show ?thesis by blast
qed

theorem logo_failure_is_not_fatal_witness:
  "str_lit ''http://shop/logo.png'' \<noteq> [] \<and>
   \<not> fst (print_image_from_url serial_world (str_lit ''http://shop/logo.png'')) \<and>
   print_receipt serial_world [str_lit ''Hi''] None True =
     (True, [Serial_open (JStr (str_lit ''/dev/ttyUSB0'')),
             Write [0x48, 0x69, 0x0A],
             Write [0x0A], Write [0x0A], Write [0x0A], Write [0x0A], Write [0x0A],
             Write [0x1D, 0x56, 0x00], Write [0x0A], Write [0x1B, 0x42, 0x05, 0x07],
             Serial_close]) \<and>
   print_receipt serial_world [str_lit ''Hi''] (Some (str_lit ''http://shop/logo.png'')) True =
     (True, [Serial_open (JStr (str_lit ''/dev/ttyUSB0'')),
             Http_get (str_lit ''http://shop/logo.png''), Print Image_printing_error,
             Write [0x48, 0x69, 0x0A],
             Write [0x0A], Write [0x0A], Write [0x0A], Write [0x0A], Write [0x0A],
             Write [0x1D, 0x56, 0x00], Write [0x0A], Write [0x1B, 0x42, 0x05, 0x07],
             Serial_close])"
proof -
  have url: "str_lit ''http://shop/logo.png'' \<noteq> []"
    by (simp add: str_lit_def)
  have fails: "\<not> fst (print_image_from_url serial_world (str_lit ''http://shop/logo.png''))"
    by (simp add: print_image_from_url_def serial_world_def)
  have plain: "print_receipt serial_world [str_lit ''Hi''] None True =
     (True, [Serial_open (JStr (str_lit ''/dev/ttyUSB0'')),
             Write [0x48, 0x69, 0x0A],
             Write [0x0A], Write [0x0A], Write [0x0A], Write [0x0A], Write [0x0A],
             Write [0x1D, 0x56, 0x00], Write [0x0A], Write [0x1B, 0x42, 0x05, 0x07],
             Serial_close])"
    by (simp add: world_eval)
  have logo: "print_receipt serial_world [str_lit ''Hi''] (Some (str_lit ''http://shop/logo.png'')) True =
     (True, [Serial_open (JStr (str_lit ''/dev/ttyUSB0'')),
             Http_get (str_lit ''http://shop/logo.png''), Print Image_printing_error,
             Write [0x48, 0x69, 0x0A],
             Write [0x0A], Write [0x0A], Write [0x0A], Write [0x0A], Write [0x0A],
             Write [0x1D, 0x56, 0x00], Write [0x0A], Write [0x1B, 0x42, 0x05, 0x07],
             Serial_close])"
    by (simp add: world_eval)
  from logo_failure_is_not_fatal [OF url fails, of "[str_lit ''Hi'']" True] url fails plain logo
  show ?thesis by blast
qed


section \<open>Item lines and the test receipt\<close>

lemmas pad_eval = py_center_def py_ljust_def py_rjust_def fits_ssize_def

lemma positive_texts:
  "positive_str (5 / 2) = str_lit ''2.5''" "positive_str (15 / 2) = str_lit ''7.5''"
  "positive_str 5 = str_lit ''5.0''" "positive_str 10 = str_lit ''10.0''"
  "positive_str 15 = str_lit ''15.0''" "positive_str 20 = str_lit ''20.0''"
  "positive_str 55 = str_lit ''55.0''"
  by (simp_all add: positive_str_def float_eval strip_zeros_def str_lit_def)

text \<open>
  C7. \<open>format_receipt_item("Widget", 3, 2.50)\<close> with the default widths 15, 4, 7 and 10
  returns a string of 36 characters: \<open>Widget\<close> padded on the right to 15, the
  quantity \<open>3\<close> padded to 4, the price \<open>2.5\<close> padded to 7, and the extended price
  padded on the left to 10. The extended price is the float \<open>3 * 2.5 = 7.5\<close>, and its
  text is \<open>7.5\<close>: the shortest decimal that denotes this float, with no rounding to
  cents.
\<close>

theorem widget_item_line:
  "format_receipt_item (str_lit ''Widget'') 3 (Finite (5 / 2)) 15 4 7 10
     = Some (str_lit ''Widget         3   2.5           7.5'') \<and>
   length (str_lit ''Widget         3   2.5           7.5'') = 36 \<and>
   left_align (str_lit ''Widget'') 15
     = Some (take 15 (str_lit ''Widget         3   2.5           7.5'')) \<and>
   int_times_float 3 (Finite (5 / 2)) = Some (Finite (15 / 2)) \<and>
   float_str (Finite (15 / 2)) = str_lit ''7.5'' \<and>
   right_align (str_lit ''7.5'') 10
     = Some (drop 26 (str_lit ''Widget         3   2.5           7.5''))"
  by (simp add: format_receipt_item_def widget_price positive_texts str_int_def
      left_align_def right_align_def pad_eval str_lit_def replicate_numeral)

lemma sample_item_lines:
  "format_receipt_item (str_lit ''Item 1'') 2 (Finite 10) 15 4 7 10
     = Some (str_lit ''Item 1         2   10.0         20.0'')"
  "format_receipt_item (str_lit ''Item 2'') 1 (Finite 20) 15 4 7 10
     = Some (str_lit ''Item 2         1   20.0         20.0'')"
  "format_receipt_item (str_lit ''Item 3'') 3 (Finite 5) 15 4 7 10
     = Some (str_lit ''Item 3         3   5.0          15.0'')"
  by (simp_all add: format_receipt_item_def sample_prices positive_texts str_int_def
      pad_eval str_lit_def replicate_numeral)

lemma sample_extended:
  "extended_prices test_items = Some [Finite 20, Finite 20, Finite 15]"
  by (simp add: test_items_def sample_prices)

lemma sample_total: "total = Some (Finite 55)"
  by (simp add: total_def sample_extended sample_sum)

lemma sample_lines:
  "item_lines test_items =
     Some [str_lit ''     Item 1         2   10.0         20.0    '',
           str_lit ''     Item 2         1   20.0         20.0    '',
           str_lit ''     Item 3         3   5.0          15.0    '']"
proof -
  have "item_lines test_items =
     do {
       a \<leftarrow> py_center (str_lit ''Item 1         2   10.0         20.0'') 45;
       b \<leftarrow> py_center (str_lit ''Item 2         1   20.0         20.0'') 45;
       c \<leftarrow> py_center (str_lit ''Item 3         3   5.0          15.0'') 45;
       Some [a, b, c]
     }"
    by (simp add: test_items_def sample_item_lines)
  also have "\<dots> =
     Some [str_lit ''     Item 1         2   10.0         20.0    '',
           str_lit ''     Item 2         1   20.0         20.0    '',
           str_lit ''     Item 3         3   5.0          15.0    '']"
    by (simp add: pad_eval str_lit_def replicate_numeral)
  finally show ?thesis .
qed


lemma bold_eq: "bold t = Some ([0x1B, 0x45, 0x01] @ t @ [0x1B, 0x45, 0x00])"
  by (simp add: bold_def bold_on_def bold_off_def)

lemma test_receipt_lines_eq: "test_receipt_lines = Some printed_test_receipt"
  unfolding test_receipt_lines_def printed_test_receipt_def
  apply (simp add: bold_eq sample_lines sample_total positive_texts)
  apply (simp add: holder_line_def py_repeat_def pad_eval str_lit_def replicate_numeral)
  done


lemma print_test_receipt_unconfigured:
  "\<not> truthy (fst (load_printer_config (device_file w))) \<Longrightarrow>
   print_test_receipt w =
     Some (False,
           snd (load_printer_config (device_file w)) @ snd (load_printer_type (type_file w))
           @ [Print No_printer_configured_select_first]
           @ (if tkinter_available w then [Messagebox No_printer_configured] else []))"
  by (cases "load_printer_config (device_file w)"; cases "load_printer_type (type_file w)")
    (simp add: print_test_receipt_def)

lemma print_test_receipt_configured:
  "truthy (fst (load_printer_config (device_file w))) \<Longrightarrow>
   print_test_receipt w =
     Some (fst (print_receipt w printed_test_receipt None True),
           snd (load_printer_config (device_file w)) @ snd (load_printer_type (type_file w))
           @ snd (print_receipt w printed_test_receipt None True))"
  by (cases "load_printer_config (device_file w)"; cases "load_printer_type (type_file w)";
      cases "print_receipt w printed_test_receipt None True")
    (simp add: print_test_receipt_def test_receipt_lines_eq)

text \<open>
  C9. \<open>print_test_receipt\<close> builds its receipt from the three sample items
  (2 x 10.0, 1 x 20.0, 3 x 5.0); their extended prices are 20.0, 20.0 and 15.0 and
  \<open>total\<close> is their sum 55.0, printed as \<open>55.0\<close> on the thirteenth line. With a device
  configured, the function returns what \<open>print_receipt\<close> returns for these sixteen
  lines with no logo and the buzzer on, after its own two loads; with none it returns
  False without calling \<open>print_receipt\<close>.
\<close>

theorem test_receipt_total_and_delegation:
  "map (\<lambda>item. (item_name item, item_qty item, item_price item)) test_items
     = [(str_lit ''Item 1'', 2, Finite 10), (str_lit ''Item 2'', 1, Finite 20),
        (str_lit ''Item 3'', 3, Finite 5)] \<and>
   extended_prices test_items = Some [Finite 20, Finite 20, Finite 15] \<and>
   total = Some (Finite 55) \<and>
   float_str (Finite 55) = str_lit ''55.0'' \<and>
   test_receipt_lines = Some printed_test_receipt \<and>
   printed_test_receipt ! 12 = str_lit ''              Total         55.0             '' \<and>
   (truthy (fst (load_printer_config (device_file w))) \<longrightarrow>
      print_test_receipt w =
        Some (fst (print_receipt w printed_test_receipt None True),
              snd (load_printer_config (device_file w)) @ snd (load_printer_type (type_file w))
              @ snd (print_receipt w printed_test_receipt None True))) \<and>
   (\<not> truthy (fst (load_printer_config (device_file w))) \<longrightarrow>
      print_test_receipt w =
        Some (False,
              snd (load_printer_config (device_file w)) @ snd (load_printer_type (type_file w))
              @ [Print No_printer_configured_select_first]
              @ (if tkinter_available w then [Messagebox No_printer_configured] else [])))"
proof -
  have "map (\<lambda>item. (item_name item, item_qty item, item_price item)) test_items
     = [(str_lit ''Item 1'', 2, Finite 10), (str_lit ''Item 2'', 1, Finite 20),
        (str_lit ''Item 3'', 3, Finite 5)]"
    by (simp add: test_items_def)
  moreover have "float_str (Finite 55) = str_lit ''55.0''"
    by (simp add: positive_texts)
  moreover have
    "printed_test_receipt ! 12 = str_lit ''              Total         55.0             ''"
    by (simp add: printed_test_receipt_def)
  ultimately show ?thesis
    using sample_extended sample_total test_receipt_lines_eq
      print_test_receipt_configured [of w] print_test_receipt_unconfigured [of w]
    by blast
qed


theorem test_receipt_total_and_delegation_witness:
  "truthy (fst (load_printer_config (device_file serial_world))) \<and>
   print_test_receipt serial_world =
     Some (True,
           Serial_open (JStr (str_lit ''/dev/ttyUSB0''))
           # map (\<lambda>line. Write (map of_nat line @ [0x0A])) printed_test_receipt
           @ [Write [0x0A], Write [0x0A], Write [0x0A], Write [0x0A], Write [0x0A],
              Write [0x1D, 0x56, 0x00], Write [0x0A], Write [0x1B, 0x42, 0x05, 0x07],
              Serial_close])"
  using test_receipt_total_and_delegation [of serial_world]
  by (simp add: world_eval printed_test_receipt_def)

end
